theory Spec2Isabelle
  imports Main "HOL-Library.Word" "HOL-Library.Sublist"
begin

unbundle bit_operations_syntax

section \<open>Data model\<close>

text \<open>
  The plotter of package \<open>pos\<close> (\<open>src/pkg/pos/plot.go\<close>, \<open>src/pkg/pos/encrypt.go\<close>)
  works on one file through collaborators that live in other packages
  (\<open>afero\<close>, \<open>serialize\<close>, \<open>sort\<close>, \<open>parameters\<close>, \<open>utils\<close>, \<open>crypto/cipher\<close>).
  The embedding threads an explicit history of the calls made on these collaborators
  and takes their answers from an environment, so that every theorem holds for every
  behaviour of the collaborators.

  Go's \<open>int\<close> byte counts and offsets are modelled as unbounded \<open>int\<close> (they stay far
  below \<open>2^63\<close> in every run that fits on a disk); \<open>uint64\<close> values whose wrap-around
  the code relies on (bucket ids, the size parameter inside \<open>At\<close>) are \<open>64 word\<close>;
  bytes are \<open>8 word\<close>; \<open>*big.Int\<close> is \<open>int\<close>.
\<close>

type_synonym byte = "8 word"

datatype go_error = Error string

text \<open>A Go call either returns or panics.\<close>

datatype 'a outcome = Panic | Ret 'a

text \<open>
  The history of collaborator calls, oldest first. Each event records the arguments of
  the call and, for writes, the byte count the call returned.
\<close>

datatype event =
    EvCreate string
  | EvFileWrite "byte list" int
  | EvSerWrite1 int "64 word" "64 word" int int
  | EvSerWriteT int "64 word" int int int
  | EvSerRead int int int
  | EvSort bool int int int int int int
  | EvWriteTable int int int int

text \<open>
  \<open>EvCreate name\<close>: \<open>AppFs.Create(name)\<close>.
  \<open>EvFileWrite p n\<close>: \<open>file.Write(p)\<close> returned count \<open>n\<close>.
  \<open>EvSerWrite1 offset x f1x k n\<close>: \<open>serialize.Write(file, offset, x, f1x, k)\<close> returned \<open>n\<close>.
  \<open>EvSerWriteT offset f collated k n\<close>:
  \<open>serialize.Write(file, offset, f, nil, nil, nil, collated, k)\<close> returned \<open>n\<close>.
  \<open>EvSerRead offset entryLen k\<close>: \<open>serialize.Read(file, offset, entryLen, k)\<close>.
  \<open>EvSort spare begin end availableMemory entryLen maxNumber k\<close>: \<open>sort.OnDisk\<close>, the
  flag telling whether the spare file was created.
  \<open>EvWriteTable t previousStart currentStart entryLen\<close>: entry into \<open>WriteTable\<close>.
\<close>

text \<open>
  \<open>serialize.Entry\<close> is declared outside the given sources; \<open>WriteTable\<close> uses its
  fields \<open>Fx\<close> and \<open>Index\<close>, the rest of the record is the payload \<open>Metadata\<close>.
\<close>

record entry =
  Fx :: "64 word"
  Index :: int
  Metadata :: int

text \<open>The elements \<open>FindMatches\<close> returns, with the three fields \<open>WriteTable\<close> reads.\<close>

record match =
  Left :: "64 word"
  LeftMetadata :: int
  RightMetadata :: int

text \<open>
  What one call of \<open>serialize.Read\<close> returns: an entry and the bytes read, the error
  \<open>serialize.EOTErr\<close>, the error \<open>io.EOF\<close>, or any other error.
\<close>

datatype read_result = ReadOk entry int | ReadEOT | ReadEOF | ReadErr string

text \<open>The object \<open>NewFx\<close> returns, through its method \<open>Calculate(t, left, lm, rm)\<close>.\<close>

type_synonym fx = "int \<Rightarrow> 64 word \<Rightarrow> int \<Rightarrow> int \<Rightarrow> go_error + 64 word"

text \<open>
  The collaborators. Every answer may depend on the whole history, so an environment
  can fail the third write, shorten a count, or answer differently at the same offset.
  \<open>table_reads\<close> gives the results of the successive \<open>serialize.Read\<close> calls of the
  pass that starts after the given history; once the list is used up the file has
  ended and the next read returns \<open>io.EOF\<close>. \<open>EOT\<close> is the constant
  \<open>serialize.EOT\<close>, the end-of-table sentinel.
\<close>

record env =
  fs_Create :: "event list \<Rightarrow> string \<Rightarrow> go_error option"
  file_Write :: "event list \<Rightarrow> byte list \<Rightarrow> int \<times> go_error option"
  serialize_Write1 :: "event list \<Rightarrow> int \<Rightarrow> 64 word \<Rightarrow> 64 word \<Rightarrow> int \<Rightarrow> int \<times> go_error option"
  serialize_WriteT :: "event list \<Rightarrow> int \<Rightarrow> 64 word \<Rightarrow> int \<Rightarrow> int \<Rightarrow> int \<times> go_error option"
  table_reads :: "event list \<Rightarrow> read_result list"
  sort_OnDisk :: "event list \<Rightarrow> bool \<Rightarrow> int \<Rightarrow> int \<Rightarrow> int \<Rightarrow> int \<Rightarrow> int \<Rightarrow> int \<Rightarrow> go_error option"
  NewF1 :: "int \<Rightarrow> byte list \<Rightarrow> go_error + (64 word \<Rightarrow> 64 word)"
  NewFx :: "64 word \<Rightarrow> byte list \<Rightarrow> go_error + fx"
  BucketID :: "64 word \<Rightarrow> 64 word"
  FindMatches :: "entry list \<Rightarrow> entry list \<Rightarrow> match list"
  Collate :: "int \<Rightarrow> 64 word \<Rightarrow> int \<Rightarrow> int \<Rightarrow> go_error + int"
  EOT :: "byte list"

section \<open>WriteHeader\<close>

definition bytes_of_string :: "string \<Rightarrow> byte list" where
  "bytes_of_string s = map (\<lambda>c. word_of_nat (of_char c)) s"

definition magic :: "byte list" where
  "magic = bytes_of_string ''Proof of Space Plot''"

text \<open>\<open>file.Write(p)\<close>: the call is recorded with the count it returned.\<close>

definition call_file_Write :: "env \<Rightarrow> event list \<Rightarrow> byte list \<Rightarrow> event list \<times> int \<times> go_error option" where
  "call_file_Write env tr p =
     (let r = file_Write env tr p in (tr @ [EvFileWrite p (fst r)], fst r, snd r))"

text \<open>
  \<open>sizeBuf := make([]byte, 2); sizeBuf[0] = byte(len(memo))\<close>: two zero bytes, the
  first overwritten with the length converted to a byte.
\<close>

definition sizeBuf :: "byte list \<Rightarrow> byte list" where
  "sizeBuf memo = (replicate 2 0)[0 := word_of_nat (length memo)]"

definition WriteHeader :: "env \<Rightarrow> event list \<Rightarrow> int \<Rightarrow> byte list \<Rightarrow> byte list \<Rightarrow> event list \<times> int \<times> go_error option" where
  "WriteHeader env tr k memo plotid =
     (let (tr, n, err) = call_file_Write env tr magic in
      if err \<noteq> None then (tr, n, err) else
      let (tr, nmore, err) = call_file_Write env tr plotid; n = n + nmore in
      if err \<noteq> None then (tr, n, err) else
      let (tr, nmore, err) = call_file_Write env tr [word_of_int k]; n = n + nmore in
      if err \<noteq> None then (tr, n, err) else
      let (tr, nmore, err) = call_file_Write env tr (sizeBuf memo); n = n + nmore in
      if err \<noteq> None then (tr, n, err) else
      let (tr, nmore, err) = call_file_Write env tr memo in
      (tr, n + nmore, err))"

text \<open>The byte strings handed to \<open>file.Write\<close>, in call order.\<close>

fun file_writes :: "event list \<Rightarrow> byte list list" where
  "file_writes [] = []"
| "file_writes (EvFileWrite p n # evs) = p # file_writes evs"
| "file_writes (_ # evs) = file_writes evs"

text \<open>A two-byte length field read with the first byte as the low byte.\<close>

definition recorded_length :: "byte list \<Rightarrow> nat" where
  "recorded_length buf = unat (buf ! 0) + 256 * unat (buf ! 1)"

section \<open>WriteFirstTable\<close>

text \<open>
  \<open>math.Pow(2, float64(k))\<close> converted to an integer type. The power is exact in
  floating point, and the conversion is exact for \<open>0 \<le> k \<le> 62\<close> (\<open>63\<close> for
  \<open>uint64\<close>); for negative \<open>k\<close> the power is below 1 and the conversion truncates
  it to 0. For larger \<open>k\<close> the conversion is implementation-defined in Go: those
  \<open>k\<close> are outside this model.
\<close>

definition pow2 :: "int \<Rightarrow> int" where
  "pow2 k = (if k < 0 then 0 else 2 ^ nat k)"

definition call_serialize_Write1 ::
  "env \<Rightarrow> event list \<Rightarrow> int \<Rightarrow> 64 word \<Rightarrow> 64 word \<Rightarrow> int \<Rightarrow> event list \<times> int \<times> go_error option" where
  "call_serialize_Write1 env tr off x f1x k =
     (let r = serialize_Write1 env tr off x f1x k
      in (tr @ [EvSerWrite1 off x f1x k (fst r)], fst r, snd r))"

text \<open>
  The loop \<open>for x := uint64(0); x < maxNumber; x++\<close>. The counter is a natural number
  below \<open>maxNumber \<le> 2^63\<close>, converted to \<open>uint64\<close> where it is used. An error of
  \<open>serialize.Write\<close> returns from the function with \<open>wrote + n\<close>.
\<close>

function WriteFirstTable_loop ::
  "env \<Rightarrow> (64 word \<Rightarrow> 64 word) \<Rightarrow> int \<Rightarrow> int \<Rightarrow> int \<Rightarrow> nat \<Rightarrow> event list \<Rightarrow> int
     \<Rightarrow> event list \<times> int \<times> go_error option" where
  "WriteFirstTable_loop env f1 k start maxNumber x tr wrote =
     (if int x < maxNumber then
        let f1x = f1 (word_of_nat x);
            r = call_serialize_Write1 env tr (start + wrote) (word_of_nat x) f1x k;
            n = fst (snd r)
        in if snd (snd r) \<noteq> None then (fst r, wrote + n, snd (snd r))
           else WriteFirstTable_loop env f1 k start maxNumber (x + 1) (fst r) (wrote + n)
      else (tr, wrote, None))"
  by pat_completeness auto
termination
  by (relation "measure (\<lambda>(env, f1, k, start, maxNumber, x, tr, wrote). nat (maxNumber - int x))") auto

declare WriteFirstTable_loop.simps [simp del]

definition WriteFirstTable :: "env \<Rightarrow> event list \<Rightarrow> int \<Rightarrow> int \<Rightarrow> byte list \<Rightarrow> event list \<times> int \<times> go_error option" where
  "WriteFirstTable env tr k start plotid =
     (case NewF1 env k plotid of
        Inl e \<Rightarrow> (tr, 0, Some e)
      | Inr f1 \<Rightarrow>
          let maxNumber = pow2 k;
              (tr, wrote, err) = WriteFirstTable_loop env f1 k start maxNumber 0 tr 0
          in if err \<noteq> None then (tr, wrote, err) else
             let (tr, n, err) = call_file_Write env tr (EOT env)
             in if err \<noteq> None then (tr, wrote, err) else (tr, wrote, None))"

text \<open>
  The layout of a run of table-1 writes: entry \<open>x\<close>, \<open>x + 1\<close>, ... in this order,
  each holding \<open>f1\<close> of its \<open>x\<close>, each at the offset where the one before ended.
\<close>

fun first_table_layout :: "(64 word \<Rightarrow> 64 word) \<Rightarrow> int \<Rightarrow> int \<Rightarrow> nat \<Rightarrow> event list \<Rightarrow> bool" where
  "first_table_layout f1 k off x [] = True"
| "first_table_layout f1 k off x (EvSerWrite1 off' x' f1x k' n # evs) =
     (off' = off \<and> x' = word_of_nat x \<and> f1x = f1 x' \<and> k' = k
      \<and> first_table_layout f1 k (off + n) (x + 1) evs)"
| "first_table_layout f1 k off x (_ # evs) = False"

text \<open>The bytes an entry write reported.\<close>

fun entry_bytes :: "event \<Rightarrow> int" where
  "entry_bytes (EvSerWrite1 off x f1x k n) = n"
| "entry_bytes (EvSerWriteT off f c k n) = n"
| "entry_bytes _ = 0"

section \<open>WriteTable\<close>

definition call_serialize_WriteT ::
  "env \<Rightarrow> event list \<Rightarrow> int \<Rightarrow> 64 word \<Rightarrow> int \<Rightarrow> int \<Rightarrow> event list \<times> int \<times> go_error option" where
  "call_serialize_WriteT env tr off f collated k =
     (let r = serialize_WriteT env tr off f collated k
      in (tr @ [EvSerWriteT off f collated k (fst r)], fst r, snd r))"

text \<open>
  The loop \<open>for _, m := range FindMatches(leftBucket, rightBucket)\<close> of the default
  branch: hash, collate, write; the first error returns from \<open>WriteTable\<close>.
\<close>

fun write_matches ::
  "env \<Rightarrow> fx \<Rightarrow> int \<Rightarrow> int \<Rightarrow> int \<Rightarrow> event list \<Rightarrow> int \<Rightarrow> match list
     \<Rightarrow> event list \<times> int \<times> go_error option" where
  "write_matches env fx t k currentStart tr written [] = (tr, written, None)"
| "write_matches env fx t k currentStart tr written (m # ms) =
     (case fx t (Left m) (LeftMetadata m) (RightMetadata m) of
        Inl e \<Rightarrow> (tr, written, Some e)
      | Inr f \<Rightarrow>
     (case Collate env t (word_of_int k) (LeftMetadata m) (RightMetadata m) of
        Inl e \<Rightarrow> (tr, written, Some e)
      | Inr collated \<Rightarrow>
          let r = call_serialize_WriteT env tr (currentStart + written) f collated k;
              w = fst (snd r)
          in if snd (snd r) \<noteq> None then (fst r, written + w, snd (snd r))
             else write_matches env fx t k currentStart (fst r) (written + w) ms))"

text \<open>The local variables of \<open>WriteTable\<close>, with the history of calls.\<close>

record wt_state =
  hist :: "event list"
  read :: int
  written :: int
  bucketID :: "64 word"
  leftBucket :: "entry list"
  rightBucket :: "entry list"
  index :: int

text \<open>
  One iteration of the outer loop after a successful read: lines 132 to 183 of
  \<open>plot.go\<close>. The result is the new state and the error returned from inside
  the iteration, if any.
\<close>

definition WriteTable_entry ::
  "env \<Rightarrow> fx \<Rightarrow> int \<Rightarrow> int \<Rightarrow> int \<Rightarrow> wt_state \<Rightarrow> entry \<Rightarrow> int \<Rightarrow> wt_state \<times> go_error option" where
  "WriteTable_entry env fx t k currentStart s0 entry0 bytesRead =
     (let s = s0\<lparr>read := read s0 + bytesRead\<rparr>;
          leftEntry = entry0\<lparr>Index := index s\<rparr>;
          leftBucketID = BucketID env (Fx leftEntry)
      in if leftBucketID = bucketID s then
           (s\<lparr>leftBucket := leftBucket s @ [leftEntry], index := index s + 1\<rparr>, None)
         else if leftBucketID = bucketID s + 1 then
           (s\<lparr>rightBucket := rightBucket s @ [leftEntry], index := index s + 1\<rparr>, None)
         else
           let r = (if length (leftBucket s) > 0 \<and> length (rightBucket s) > 0
                    then write_matches env fx t k currentStart (hist s) (written s)
                           (FindMatches env (leftBucket s) (rightBucket s))
                    else (hist s, written s, None));
               s = s\<lparr>hist := fst r, written := fst (snd r)\<rparr>
           in if snd (snd r) \<noteq> None then (s, snd (snd r))
              else
                let s = (if leftBucketID = bucketID s + 2
                         then s\<lparr>bucketID := bucketID s + 1,
                                leftBucket := rightBucket s, rightBucket := []\<rparr>
                         else s\<lparr>bucketID := leftBucketID,
                                leftBucket := [], rightBucket := []\<rparr>)
                in (s\<lparr>index := index s + 1\<rparr>, None))"

text \<open>
  The outer loop \<open>for { ... }\<close> over the results of the successive reads. The
  sentinel and the end of the file leave the loop; so does the end of the list, where
  the file has ended.
\<close>

fun WriteTable_loop ::
  "env \<Rightarrow> fx \<Rightarrow> int \<Rightarrow> int \<Rightarrow> int \<Rightarrow> int \<Rightarrow> int \<Rightarrow> wt_state \<Rightarrow> read_result list
     \<Rightarrow> wt_state \<times> go_error option" where
  "WriteTable_loop env fx t k previousStart currentStart entryLen s [] =
     (s\<lparr>hist := hist s @ [EvSerRead (previousStart + read s) entryLen k]\<rparr>, None)"
| "WriteTable_loop env fx t k previousStart currentStart entryLen s (r # rs) =
     (let s = s\<lparr>hist := hist s @ [EvSerRead (previousStart + read s) entryLen k]\<rparr>
      in case r of
           ReadEOT \<Rightarrow> (s, None)
         | ReadEOF \<Rightarrow> (s, None)
         | ReadErr msg \<Rightarrow> (s, Some (Error (''cannot read left entry: '' @ msg)))
         | ReadOk leftEntry bytesRead \<Rightarrow>
             (case WriteTable_entry env fx t k currentStart s leftEntry bytesRead of
                (s', Some e) \<Rightarrow> (s', Some e)
              | (s', None) \<Rightarrow>
                  WriteTable_loop env fx t k previousStart currentStart entryLen s' rs))"

definition WriteTable_init :: "event list \<Rightarrow> wt_state" where
  "WriteTable_init tr =
     \<lparr>hist = tr, read = 0, written = 0, bucketID = 0,
      leftBucket = [], rightBucket = [], index = 0\<rparr>"

definition WriteTable ::
  "env \<Rightarrow> event list \<Rightarrow> int \<Rightarrow> int \<Rightarrow> int \<Rightarrow> int \<Rightarrow> int \<Rightarrow> fx \<Rightarrow> event list \<times> int \<times> go_error option" where
  "WriteTable env tr k t previousStart currentStart entryLen fx =
     (let reads = table_reads env tr;
          s0 = WriteTable_init (tr @ [EvWriteTable t previousStart currentStart entryLen]);
          r = WriteTable_loop env fx t k previousStart currentStart entryLen s0 reads
      in (hist (fst r), written (fst r), snd r))"

text \<open>The entry writes of derived tables in a history.\<close>

fun table_writes :: "event list \<Rightarrow> event list" where
  "table_writes [] = []"
| "table_writes (EvSerWriteT off f c k n # evs) = EvSerWriteT off f c k n # table_writes evs"
| "table_writes (_ # evs) = table_writes evs"

text \<open>The events a table pass can add after its start: reads and entry writes.\<close>

fun pass_event :: "event \<Rightarrow> bool" where
  "pass_event (EvSerWriteT off f c k n) = True"
| "pass_event (EvSerRead off l k) = True"
| "pass_event _ = False"

text \<open>
  A read result that keeps the pass inside the buckets \<open>b\<close> and \<open>b + 1\<close>: an entry
  of one of the two buckets, or the end of the stream.
\<close>

fun in_buckets :: "env \<Rightarrow> 64 word \<Rightarrow> read_result \<Rightarrow> bool" where
  "in_buckets env b (ReadOk e n) = (BucketID env (Fx e) = b \<or> BucketID env (Fx e) = b + 1)"
| "in_buckets env b (ReadErr msg) = False"
| "in_buckets env b _ = True"

text \<open>A read result other than a read error.\<close>

fun readable :: "read_result \<Rightarrow> bool" where
  "readable (ReadErr msg) = False"
| "readable _ = True"

section \<open>WritePlotFile\<close>

definition call_fs_Create :: "env \<Rightarrow> event list \<Rightarrow> string \<Rightarrow> event list \<times> go_error option" where
  "call_fs_Create env tr name = (tr @ [EvCreate name], fs_Create env tr name)"

definition call_sort_OnDisk ::
  "env \<Rightarrow> event list \<Rightarrow> bool \<Rightarrow> int \<Rightarrow> int \<Rightarrow> int \<Rightarrow> int \<Rightarrow> int \<Rightarrow> int \<Rightarrow> event list \<times> go_error option" where
  "call_sort_OnDisk env tr spare b e mem entryLen maxNumber k =
     (tr @ [EvSort spare b e mem entryLen maxNumber k],
      sort_OnDisk env tr spare b e mem entryLen maxNumber k)"

text \<open>
  Go's integer division truncates towards zero and panics on a zero divisor.
\<close>

definition go_div :: "int \<Rightarrow> int \<Rightarrow> int option" where
  "go_div a b = (if b = 0 then None else Some (sgn a * sgn b * (\<bar>a\<bar> div \<bar>b\<bar>)))"

text \<open>
  How one iteration of a loop body ends: with a \<open>return\<close>, with a \<open>break\<close>, or by
  reaching its end.
\<close>

datatype ('r, 's) flow = Returned 'r | Broke 's | Continued 's

text \<open>
  The variables the table loop updates: the history, \<open>previousStart\<close>,
  \<open>currentStart\<close> and \<open>entryLen\<close>.
\<close>

type_synonym loop_vars = "event list \<times> int \<times> int \<times> int"

text \<open>
  The body of \<open>for t := 2; t <= 7; t++\<close>, lines 71 to 78. Its last statement is
  \<open>break\<close>.
\<close>

definition table_loop_body ::
  "env \<Rightarrow> int \<Rightarrow> int \<Rightarrow> fx \<Rightarrow> int \<Rightarrow> loop_vars \<Rightarrow> (event list \<times> go_error option outcome, loop_vars) flow" where
  "table_loop_body env k maxNumber fx t vars =
     (case vars of (tr, previousStart, currentStart, entryLen) \<Rightarrow>
        (let r = WriteTable env tr k t previousStart currentStart entryLen fx;
             tr = fst r; wrote = fst (snd r)
         in if snd (snd r) \<noteq> None then Returned (tr, Ret (snd (snd r)))
            else
              let previousStart = previousStart + wrote;
                  currentStart = currentStart + wrote
              in (case go_div wrote maxNumber of
                    None \<Rightarrow> Returned (tr, Panic)
                  | Some entryLen \<Rightarrow> Broke (tr, previousStart, currentStart, entryLen))))"

function table_loop ::
  "env \<Rightarrow> int \<Rightarrow> int \<Rightarrow> fx \<Rightarrow> int \<Rightarrow> loop_vars \<Rightarrow> event list \<times> go_error option outcome" where
  "table_loop env k maxNumber fx t vars =
     (if t \<le> 7 then
        (case table_loop_body env k maxNumber fx t vars of
           Returned res \<Rightarrow> res
         | Broke vars' \<Rightarrow> (fst vars', Ret None)
         | Continued vars' \<Rightarrow> table_loop env k maxNumber fx (t + 1) vars')
      else (fst vars, Ret None))"
  by pat_completeness auto
termination
  by (relation "measure (\<lambda>(env, k, maxNumber, fx, t, vars). nat (8 - t))") auto

declare table_loop.simps [simp del]

definition WritePlotFile ::
  "env \<Rightarrow> string \<Rightarrow> int \<Rightarrow> int \<Rightarrow> byte list \<Rightarrow> byte list \<Rightarrow> event list \<times> go_error option outcome" where
  "WritePlotFile env filename k availableMemory memo plotid =
     (let (tr, err) = call_fs_Create env [] filename in
      if err \<noteq> None then (tr, Ret err) else
      let (tr, headerLen, err) = WriteHeader env tr k memo plotid in
      if err \<noteq> None then (tr, Ret err) else
      let (tr, wrote, err) = WriteFirstTable env tr k headerLen plotid in
      if err \<noteq> None then (tr, Ret err) else
      let (tr, spare, err) =
            (if wrote > availableMemory
             then let (tr, err) = call_fs_Create env tr (filename @ ''-spare'')
                  in (tr, err = None, err)
             else (tr, False, None)) in
      if err \<noteq> None then (tr, Ret err) else
      let maxNumber = pow2 k in
      (case go_div wrote maxNumber of
         None \<Rightarrow> (tr, Panic)
       | Some entryLen \<Rightarrow>
      (let (tr, err) = call_sort_OnDisk env tr spare headerLen (wrote + headerLen)
                         availableMemory entryLen maxNumber k in
       if err \<noteq> None then (tr, Ret err) else
       (case NewFx env (word_of_int k) plotid of
          Inl e \<Rightarrow> (tr, Ret (Some e))
        | Inr fx \<Rightarrow>
       (let previousStart = headerLen;
            currentStart = headerLen + wrote
        in table_loop env k maxNumber fx 2 (tr, previousStart, currentStart, entryLen))))))"

text \<open>
  The events of the phases before the table loop, other than the sort: file creation,
  raw writes and table-1 entry writes.
\<close>

fun setup_event :: "event \<Rightarrow> bool" where
  "setup_event (EvCreate name) = True"
| "setup_event (EvFileWrite p n) = True"
| "setup_event (EvSerWrite1 off x f1x k n) = True"
| "setup_event _ = False"

text \<open>
  The milestones of a run, in order: a call of \<open>sort.OnDisk\<close>, and the start of the
  pass that builds table \<open>t\<close>.
\<close>

datatype milestone = Sorted | Pass int

fun milestones :: "event list \<Rightarrow> milestone list" where
  "milestones [] = []"
| "milestones (EvSort sp b e m l mx k # evs) = Sorted # milestones evs"
| "milestones (EvWriteTable t p c l # evs) = Pass t # milestones evs"
| "milestones (_ # evs) = milestones evs"

text \<open>
  The region start, region end, entry length and entry count each \<open>sort.OnDisk\<close>
  call received.
\<close>

fun sort_args :: "event list \<Rightarrow> (int \<times> int \<times> int \<times> int) list" where
  "sort_args [] = []"
| "sort_args (EvSort sp b e m l mx k # evs) = (b, e, l, mx) # sort_args evs"
| "sort_args (_ # evs) = sort_args evs"

text \<open>
  \<open>sorted_after t ms\<close>: in the run with milestones \<open>ms\<close> the pass for table \<open>t\<close> is
  followed by a sort before anything else of note happens.
\<close>

fun sorted_after :: "int \<Rightarrow> milestone list \<Rightarrow> bool" where
  "sorted_after t [] = False"
| "sorted_after t (Sorted # ms) = sorted_after t ms"
| "sorted_after t (Pass t' # ms) =
     ((t' = t \<and> (case ms of Sorted # _ \<Rightarrow> True | _ \<Rightarrow> False)) \<or> sorted_after t ms)"

text \<open>An environment in which no collaborator ever returns an error.\<close>

definition never_fails :: "env \<Rightarrow> bool" where
  "never_fails env \<longleftrightarrow>
     (\<forall>tr name. fs_Create env tr name = None)
     \<and> (\<forall>tr p. snd (file_Write env tr p) = None)
     \<and> (\<forall>tr off x f1x k. snd (serialize_Write1 env tr off x f1x k) = None)
     \<and> (\<forall>tr off f c k. snd (serialize_WriteT env tr off f c k) = None)
     \<and> (\<forall>tr. list_all readable (table_reads env tr))
     \<and> (\<forall>tr sp b e m l mx k. sort_OnDisk env tr sp b e m l mx k = None)
     \<and> (\<forall>k plotid. \<exists>f1. NewF1 env k plotid = Inr f1)
     \<and> (\<forall>k plotid. \<exists>fx. NewFx env k plotid = Inr fx \<and> (\<forall>t l lm rm. \<exists>f. fx t l lm rm = Inr f))
     \<and> (\<forall>t k lm rm. \<exists>c. Collate env t k lm rm = Inr c)"

section \<open>At\<close>

text \<open>
  \<open>cipher.Block\<close> is an interface of the Go library. A block cipher is modelled by
  what \<open>Encrypt(dst, src)\<close> does with a destination holding \<open>dst\<close> and a source
  holding \<open>src\<close>: it panics (\<open>None\<close>) or returns after storing bytes from the start
  of the destination (\<open>Some out\<close>).
\<close>

type_synonym cipher = "byte list \<Rightarrow> byte list \<Rightarrow> byte list option"

text \<open>
  Go passes a slice by value: the callee can store into the elements the slice has,
  and the caller's slice keeps its length. After the call the caller reads the bytes
  stored, cut to the length of its slice, then the bytes the callee left alone.
  Every call is recorded with the destination and the source it received.
\<close>

definition call_Encrypt ::
  "cipher \<Rightarrow> (byte list \<times> byte list) list \<Rightarrow> byte list \<Rightarrow> byte list
     \<Rightarrow> (byte list \<times> byte list) list \<times> byte list option" where
  "call_Encrypt c calls dst src =
     (calls @ [(dst, src)],
      case c dst src of
        None \<Rightarrow> None
      | Some out \<Rightarrow> Some (take (length dst) out @ drop (length out) dst))"

text \<open>\<open>big.Int.Bytes\<close>: the absolute value, big-endian, without leading zero bytes.\<close>

fun nat_bytes :: "nat \<Rightarrow> byte list" where
  "nat_bytes n = (if n = 0 then [] else nat_bytes (n div 256) @ [word_of_nat (n mod 256)])"

declare nat_bytes.simps [simp del]

definition Bytes :: "int \<Rightarrow> byte list" where
  "Bytes x = nat_bytes (nat \<bar>x\<bar>)"

text \<open>\<open>big.Int.SetBytes\<close>: the big-endian unsigned value of a byte slice.\<close>

definition SetBytes :: "byte list \<Rightarrow> int" where
  "SetBytes bs = foldl (\<lambda>acc b. acc * 256 + uint b) 0 bs"

text \<open>\<open>big.Int.Uint64\<close>: the low 64 bits of the absolute value.\<close>

definition Uint64 :: "int \<Rightarrow> 64 word" where
  "Uint64 v = word_of_int \<bar>v\<bar>"

text \<open>
  The helpers of this repository that \<open>At\<close> calls and that are outside the given
  sources: \<open>CollaSize\<close> (package \<open>pos\<close>), \<open>utils.ConcatBig\<close> and \<open>utils.Trunc\<close>.
  \<open>CollaSize\<close> returns a Go \<open>int\<close>, a 64-bit value read as signed.
\<close>

record hash_env =
  CollaSize :: "int \<Rightarrow> go_error + 64 word"
  ConcatBig :: "64 word \<Rightarrow> int \<Rightarrow> int \<Rightarrow> int"
  Trunc :: "int \<Rightarrow> 64 word \<Rightarrow> 64 word \<Rightarrow> 64 word \<Rightarrow> int"

text \<open>
  The four cases of the \<open>switch\<close>; each gives the calls made and the slice
  \<open>cipherText\<close> as the caller reads it at the end of the case, or \<open>None\<close> when a
  call panicked. Every destination is a variable declared with \<open>var\<close> and never
  assigned, the nil slice \<open>[]\<close>.
\<close>

definition At_128 ::
  "hash_env \<Rightarrow> cipher \<Rightarrow> int \<Rightarrow> int \<Rightarrow> 64 word \<Rightarrow> (byte list \<times> byte list) list \<times> byte list option" where
  "At_128 henv c x y k =
     (let cipherText = []
      in call_Encrypt c [] cipherText (Bytes (ConcatBig henv k x y)))"

definition At_256 ::
  "cipher \<Rightarrow> int \<Rightarrow> int \<Rightarrow> (byte list \<times> byte list) list \<times> byte list option" where
  "At_256 c x y =
     (let cipherText = []
      in case call_Encrypt c [] cipherText (Bytes x) of
           (calls, None) \<Rightarrow> (calls, None)
         | (calls, Some cipherText) \<Rightarrow>
             let tmp = SetBytes cipherText
             in call_Encrypt c calls cipherText (Bytes (tmp XOR y)))"

definition At_384 ::
  "hash_env \<Rightarrow> cipher \<Rightarrow> int \<Rightarrow> int \<Rightarrow> int \<Rightarrow> int \<Rightarrow> 64 word
     \<Rightarrow> (byte list \<times> byte list) list \<times> byte list option" where
  "At_384 henv c xLow xHigh yLow yHigh k =
     (let cipherText = []; cipherConcat = []
      in case call_Encrypt c [] cipherConcat (Bytes (ConcatBig henv k xLow yLow)) of
           (calls, None) \<Rightarrow> (calls, None)
         | (calls, Some cipherConcat) \<Rightarrow>
      (let ccBig = SetBytes cipherConcat; cipherYHigh = []
       in case call_Encrypt c calls cipherYHigh (Bytes yHigh) of
            (calls, None) \<Rightarrow> (calls, None)
          | (calls, Some cipherYHigh) \<Rightarrow>
      (let cyBig = SetBytes cipherYHigh; cipherXHigh = []
       in case call_Encrypt c calls cipherXHigh (Bytes xHigh) of
            (calls, None) \<Rightarrow> (calls, None)
          | (calls, Some cipherXHigh) \<Rightarrow>
              let cxBig = SetBytes cipherXHigh;
                  ccBig = (ccBig XOR cyBig) XOR cxBig
              in call_Encrypt c calls cipherText (Bytes ccBig))))"

definition At_512 ::
  "cipher \<Rightarrow> int \<Rightarrow> int \<Rightarrow> int \<Rightarrow> int \<Rightarrow> (byte list \<times> byte list) list \<times> byte list option" where
  "At_512 c xLow xHigh yLow yHigh =
     (let cipherText = []; tmp = []
      in case call_Encrypt c [] tmp (Bytes xHigh) of
           (calls, None) \<Rightarrow> (calls, None)
         | (calls, Some tmp) \<Rightarrow>
      (let tmpBig = SetBytes tmp
       in case call_Encrypt c calls tmp (Bytes (tmpBig XOR xLow)) of
            (calls, None) \<Rightarrow> (calls, None)
          | (calls, Some tmp) \<Rightarrow>
      (let tmpBig = SetBytes tmp; cipherYHigh = []
       in case call_Encrypt c calls cipherYHigh (Bytes yHigh) of
            (calls, None) \<Rightarrow> (calls, None)
          | (calls, Some cipherYHigh) \<Rightarrow>
              let cyBig = SetBytes cipherYHigh
              in call_Encrypt c calls cipherText (Bytes ((tmpBig XOR cyBig) XOR yLow)))))"

text \<open>
  \<open>size := 2 * int(k) * *collaSize\<close> is 64-bit arithmetic; \<open>int(k)\<close> keeps the bits
  of \<open>k\<close>.
\<close>

definition At_size :: "64 word \<Rightarrow> 64 word \<Rightarrow> int" where
  "At_size k collaSize = sint (2 * k * collaSize)"

text \<open>
  The \<open>switch\<close> over \<open>size\<close>. It has no default: outside the four ranges no case
  runs, no call is made and \<open>cipherText\<close> stays nil.
\<close>

definition At_switch ::
  "hash_env \<Rightarrow> cipher \<Rightarrow> int \<Rightarrow> int \<Rightarrow> int \<Rightarrow> int \<Rightarrow> int \<Rightarrow> int \<Rightarrow> 64 word \<Rightarrow> int
     \<Rightarrow> (byte list \<times> byte list) list \<times> byte list option" where
  "At_switch henv c x y xLow xHigh yLow yHigh k size' =
     (if 0 \<le> size' \<and> size' \<le> 128 then At_128 henv c x y k
      else if 129 \<le> size' \<and> size' \<le> 256 then At_256 c x y
      else if 257 \<le> size' \<and> size' \<le> 384 then At_384 henv c xLow xHigh yLow yHigh k
      else if 385 \<le> size' \<and> size' \<le> 512 then At_512 c xLow xHigh yLow yHigh
      else ([], Some []))"

definition At ::
  "hash_env \<Rightarrow> cipher \<Rightarrow> int \<Rightarrow> int \<Rightarrow> 64 word \<Rightarrow> int
     \<Rightarrow> (byte list \<times> byte list) list \<times> (64 word \<times> go_error option) outcome" where
  "At henv c x y k t =
     (let param = 2 ^ 128;
          xHigh = x div param; xLow = x mod param;
          yHigh = y div param; yLow = y mod param
      in case CollaSize henv t of
           Inl e \<Rightarrow> ([], Ret (0, Some e))
         | Inr collaSize \<Rightarrow>
             (let r = At_switch henv c x y xLow xHigh yLow yHigh k (At_size k collaSize)
              in (case snd r of
                    None \<Rightarrow> (fst r, Panic)
                  | Some cipherText \<Rightarrow>
                      (let res = SetBytes cipherText
                       in (fst r, Ret (Uint64 (Trunc henv res 0 (k + 5) k), None))))))"

section \<open>Environments for concrete runs\<close>

text \<open>
  A file on which every call succeeds: table-1 entries take 2 bytes, entries of later
  tables 3 bytes, the bucket of a hash value is the value itself, and every pair of a
  left and a right entry matches.
\<close>

definition all_pairs :: "entry list \<Rightarrow> entry list \<Rightarrow> match list" where
  "all_pairs l r =
     concat (map (\<lambda>a. map (\<lambda>b. \<lparr>Left = Fx a, LeftMetadata = Metadata a,
                                  RightMetadata = Metadata b\<rparr>) r) l)"

definition sample_fx :: fx where
  "sample_fx t l lm rm = Inr (l + 1)"

definition ideal_env :: env where
  "ideal_env = \<lparr>
     fs_Create = (\<lambda>tr name. None),
     file_Write = (\<lambda>tr p. (int (length p), None)),
     serialize_Write1 = (\<lambda>tr off x f1x k. (2, None)),
     serialize_WriteT = (\<lambda>tr off f c k. (3, None)),
     table_reads = (\<lambda>tr. []),
     sort_OnDisk = (\<lambda>tr spare b e mem el mx k. None),
     NewF1 = (\<lambda>k plotid. Inr (\<lambda>x. x + 7)),
     NewFx = (\<lambda>k plotid. Inr sample_fx),
     BucketID = (\<lambda>f. f),
     FindMatches = all_pairs,
     Collate = (\<lambda>t k lm rm. Inr (lm + rm)),
     EOT = [255] \<rparr>"

text \<open>
  The previous table holds two entries, one of bucket 0 and one of bucket 1, then the
  sentinel.
\<close>

definition two_bucket_env :: env where
  "two_bucket_env = ideal_env\<lparr>table_reads := (\<lambda>tr.
     [ReadOk \<lparr>Fx = 0, Index = 0, Metadata = 10\<rparr> 2,
      ReadOk \<lparr>Fx = 1, Index = 0, Metadata = 11\<rparr> 2,
      ReadEOT])\<rparr>"

text \<open>The same two entries, followed by an entry of bucket 3 and then the sentinel.\<close>

definition later_entry_env :: env where
  "later_entry_env = ideal_env\<lparr>table_reads := (\<lambda>tr.
     [ReadOk \<lparr>Fx = 0, Index = 0, Metadata = 10\<rparr> 2,
      ReadOk \<lparr>Fx = 1, Index = 0, Metadata = 11\<rparr> 2,
      ReadOk \<lparr>Fx = 3, Index = 0, Metadata = 13\<rparr> 2,
      ReadEOT])\<rparr>"

text \<open>
  The two-entry table, with a codec whose table-1 entries differ in length: 2 bytes for
  \<open>x = 0\<close>, 1 byte for the others.
\<close>

definition uneven_env :: env where
  "uneven_env = two_bucket_env\<lparr>serialize_Write1 :=
     (\<lambda>tr off x f1x k. (if x = 0 then 2 else 1, None))\<rparr>"

text \<open>
  Sample helpers for \<open>At\<close>: a collation size per table index (an error outside 2 to
  7), a concatenation, a truncation; and a cipher that stores a full block of 16 bytes
  into whatever destination it is given.
\<close>

definition sample_henv :: hash_env where
  "sample_henv = \<lparr>
     CollaSize = (\<lambda>t. if t = 2 then Inr 1 else if t = 3 then Inr 2
                      else if t = 4 \<or> t = 5 then Inr 4 else if t = 6 then Inr 3
                      else if t = 7 then Inr 2
                      else Inl (Error ''invalid table index'')),
     ConcatBig = (\<lambda>k x y. (uint k * 2 ^ 64 + x) * 2 ^ 64 + y),
     Trunc = (\<lambda>v a b k. v mod 2 ^ unat b) \<rparr>"

definition sample_cipher :: cipher where
  "sample_cipher dst src = Some (replicate 16 165)"


section \<open>Properties of WriteHeader\<close>

lemma file_writes_append: "file_writes (xs @ ys) = file_writes xs @ file_writes ys"
  by (induction xs rule: file_writes.induct) simp_all

lemma sizeBuf_eq: "sizeBuf memo = [word_of_nat (length memo), 0]"
  by (simp add: sizeBuf_def numeral_2_eq_2)

lemma WriteHeader_writes_prefix:
  "prefix (file_writes (fst (WriteHeader env tr k memo plotid)))
     (file_writes tr @ [magic, plotid, [word_of_int k], sizeBuf memo, memo])"
  by (simp add: WriteHeader_def call_file_Write_def Let_def case_prod_beta file_writes_append)

lemma WriteHeader_writes_success:
  "snd (snd (WriteHeader env tr k memo plotid)) = None \<Longrightarrow>
   file_writes (fst (WriteHeader env tr k memo plotid)) =
     file_writes tr @ [magic, plotid, [word_of_int k], sizeBuf memo, memo]"
  by (auto simp: WriteHeader_def call_file_Write_def Let_def case_prod_beta file_writes_append
      split: if_splits)

lemma recorded_length_sizeBuf: "recorded_length (sizeBuf memo) = length memo mod 256"
  by (simp add: recorded_length_def sizeBuf_eq unat_of_nat)

text \<open>
  C10. For every memo, the length field \<open>WriteHeader\<close> hands to the file is two
  bytes, the first holding \<open>len(memo) mod 256\<close> and the second zero; it is written
  fourth, after the magic string, the id and the byte of \<open>k\<close>, and is followed by the
  whole memo (in a run where no write fails all five writes happen, in a failing run
  a prefix of them). For a memo of 256 bytes or more the recorded length differs from
  the memo's length.
\<close>

theorem WriteHeader_memo_length_low_byte:
  "(\<exists>b0. sizeBuf memo = [b0, 0] \<and> unat b0 = length memo mod 256)
   \<and> prefix (file_writes (fst (WriteHeader env tr k memo plotid)))
        (file_writes tr @ [magic, plotid, [word_of_int k], sizeBuf memo, memo])
   \<and> (snd (snd (WriteHeader env tr k memo plotid)) = None \<longrightarrow>
        file_writes (fst (WriteHeader env tr k memo plotid)) =
          file_writes tr @ [magic, plotid, [word_of_int k], sizeBuf memo, memo])
   \<and> (256 \<le> length memo \<longrightarrow> recorded_length (sizeBuf memo) \<noteq> length memo)"
proof -
  have a: "\<exists>b0. sizeBuf memo = [b0, 0] \<and> unat b0 = length memo mod 256"
    by (simp add: sizeBuf_eq unat_of_nat)
  note b = WriteHeader_writes_prefix [of env tr k memo plotid]
  have c: "snd (snd (WriteHeader env tr k memo plotid)) = None \<longrightarrow>
        file_writes (fst (WriteHeader env tr k memo plotid)) =
          file_writes tr @ [magic, plotid, [word_of_int k], sizeBuf memo, memo]"
    using WriteHeader_writes_success [of env tr k memo plotid] by simp
  have d: "256 \<le> length memo \<longrightarrow> recorded_length (sizeBuf memo) \<noteq> length memo"
  proof
    assume "256 \<le> length memo"
    moreover have "length memo mod 256 < 256" by simp
    ultimately show "recorded_length (sizeBuf memo) \<noteq> length memo"
      by (simp add: recorded_length_sizeBuf)
  qed
  from a b c d show ?thesis by blast
qed

theorem WriteHeader_memo_length_low_byte_witness:
  "snd (snd (WriteHeader ideal_env [EvCreate ''plot''] 8 (replicate 300 7) (replicate 32 1))) = None
   \<and> (256::nat) \<le> length (replicate 300 (7::byte))
   \<and> sizeBuf (replicate 300 7) = [44, 0]
   \<and> file_writes (fst (WriteHeader ideal_env [EvCreate ''plot''] 8 (replicate 300 7) (replicate 32 1)))
       = [magic, replicate 32 1, [8], [44, 0], replicate 300 7]
   \<and> recorded_length (sizeBuf (replicate 300 7)) \<noteq> 300"
proof -
  have ok: "snd (snd (WriteHeader ideal_env [EvCreate ''plot''] 8 (replicate 300 7) (replicate 32 1))) = None"
    by (simp add: WriteHeader_def call_file_Write_def ideal_env_def Let_def)
  have sz: "sizeBuf (replicate 300 7) = [44, 0]"
    by (simp add: sizeBuf_eq)
  from WriteHeader_memo_length_low_byte [of "replicate 300 7" ideal_env "[EvCreate ''plot'']" 8 "replicate 32 1"]
    ok sz
  show ?thesis by simp
qed

section \<open>Properties of WriteFirstTable\<close>

lemma WriteFirstTable_loop_layout:
  "WriteFirstTable_loop env f1 k start maxNumber x tr wrote = (tr', wrote', None) \<Longrightarrow>
   \<exists>evs. tr' = tr @ evs \<and> int (length evs) = max 0 (maxNumber - int x)
     \<and> first_table_layout f1 k (start + wrote) x evs
     \<and> wrote' = wrote + sum_list (map entry_bytes evs)"
proof (induction "nat (maxNumber - int x)" arbitrary: x tr wrote)
  case 0
  then have "\<not> int x < maxNumber" by simp
  with "0.prems" show ?case
    by (simp add: WriteFirstTable_loop.simps)
next
  case (Suc m)
  then have lt: "int x < maxNumber" by linarith
  define r where "r = call_serialize_Write1 env tr (start + wrote) (word_of_nat x) (f1 (word_of_nat x)) k"
  define n where "n = fst (snd r)"
  have ok: "snd (snd r) = None"
    using Suc.prems lt
    by (subst (asm) WriteFirstTable_loop.simps) (auto simp: Let_def r_def split: if_splits)
  have rec: "WriteFirstTable_loop env f1 k start maxNumber (x + 1) (fst r) (wrote + n) = (tr', wrote', None)"
    using Suc.prems lt ok
    by (subst (asm) WriteFirstTable_loop.simps) (simp add: Let_def r_def n_def)
  have trr: "fst r = tr @ [EvSerWrite1 (start + wrote) (word_of_nat x) (f1 (word_of_nat x)) k n]"
    by (simp add: r_def n_def call_serialize_Write1_def Let_def)
  have m: "m = nat (maxNumber - int (x + 1))"
    using Suc.hyps(2) by simp
  from Suc.hyps(1) [OF m rec] obtain evs where
    evs: "tr' = fst r @ evs" "int (length evs) = max 0 (maxNumber - int (x + 1))"
      "first_table_layout f1 k (start + (wrote + n)) (x + 1) evs"
      "wrote' = wrote + n + sum_list (map entry_bytes evs)"
    by blast
  let ?ev = "EvSerWrite1 (start + wrote) (word_of_nat x) (f1 (word_of_nat x)) k n"
  have "tr' = tr @ (?ev # evs)" using evs(1) trr by simp
  moreover have "int (length (?ev # evs)) = max 0 (maxNumber - int x)"
    using evs(2) lt by simp
  moreover have "first_table_layout f1 k (start + wrote) x (?ev # evs)"
    using evs(3) by (simp add: add.assoc)
  moreover have "wrote' = wrote + sum_list (map entry_bytes (?ev # evs))"
    using evs(4) by simp
  ultimately show ?case by blast
qed

lemma pow2_nonneg: "0 \<le> k \<Longrightarrow> pow2 k = 2 ^ nat k"
  by (simp add: pow2_def)

text \<open>
  C8. A successful \<open>WriteFirstTable\<close> (for a size parameter \<open>0 \<le> k \<le> 63\<close>, where
  \<open>2^k\<close> is a \<open>uint64\<close>) appends exactly \<open>2^k\<close> entry writes, the entry for \<open>x\<close>
  holding \<open>f1.Calculate(x)\<close>, for \<open>x = 0, 1, ...\<close> in increasing order, the first at
  \<open>start\<close> and each at the offset where the one before ended; then it writes the
  end-of-table sentinel; and it returns the sum of the bytes of the entries, the
  sentinel not counted.
\<close>

theorem WriteFirstTable_writes_all_entries:
  assumes k: "0 \<le> k" "k \<le> 63"
    and ok: "WriteFirstTable env tr k start plotid = (tr', wrote, None)"
  shows "\<exists>f1 evs n. NewF1 env k plotid = Inr f1
           \<and> tr' = tr @ evs @ [EvFileWrite (EOT env) n]
           \<and> length evs = 2 ^ nat k
           \<and> first_table_layout f1 k start 0 evs
           \<and> wrote = sum_list (map entry_bytes evs)"
proof -
  obtain f1 where f1: "NewF1 env k plotid = Inr f1"
    using ok by (cases "NewF1 env k plotid") (auto simp: WriteFirstTable_def)
  obtain tr1 w1 e1 where loop: "WriteFirstTable_loop env f1 k start (pow2 k) 0 tr 0 = (tr1, w1, e1)"
    by (cases "WriteFirstTable_loop env f1 k start (pow2 k) 0 tr 0") auto
  have e1: "e1 = None"
    using ok f1 loop by (auto simp: WriteFirstTable_def Let_def split: if_splits)
  have w1: "w1 = wrote"
    using ok f1 loop e1 by (auto simp: WriteFirstTable_def Let_def case_prod_beta split: if_splits)
  have tr': "tr' = tr1 @ [EvFileWrite (EOT env) (fst (file_Write env tr1 (EOT env)))]"
    using ok f1 loop e1
    by (auto simp: WriteFirstTable_def Let_def case_prod_beta call_file_Write_def split: if_splits)
  from WriteFirstTable_loop_layout [OF loop [unfolded e1]] obtain evs where
    evs: "tr1 = tr @ evs" "int (length evs) = max 0 (pow2 k - int 0)"
      "first_table_layout f1 k (start + 0) 0 evs"
      "w1 = 0 + sum_list (map entry_bytes evs)"
    by blast
  have "int (length evs) = 2 ^ nat k"
    using evs(2) k by (simp add: pow2_nonneg)
  then have len: "length evs = 2 ^ nat k"
    by (metis of_nat_eq_iff of_nat_numeral of_nat_power)
  show ?thesis
    using f1 tr' evs len w1 by auto
qed

lemma WriteFirstTable_ideal_run:
  "WriteFirstTable ideal_env [] 2 57 [] =
     ([EvSerWrite1 57 0 7 2 2, EvSerWrite1 59 1 8 2 2, EvSerWrite1 61 2 9 2 2,
       EvSerWrite1 63 3 10 2 2, EvFileWrite [255] 1], 8, None)"
  by (simp add: WriteFirstTable_def Let_def pow2_def ideal_env_def WriteFirstTable_loop.simps
      call_serialize_Write1_def call_file_Write_def)

theorem WriteFirstTable_writes_all_entries_witness:
  "(0::int) \<le> 2 \<and> (2::int) \<le> 63
   \<and> WriteFirstTable ideal_env [] 2 57 [] =
        ([EvSerWrite1 57 0 7 2 2, EvSerWrite1 59 1 8 2 2, EvSerWrite1 61 2 9 2 2,
          EvSerWrite1 63 3 10 2 2, EvFileWrite [255] 1], 8, None)
   \<and> (\<exists>f1 evs n. NewF1 ideal_env 2 [] = Inr f1
         \<and> [EvSerWrite1 57 0 7 2 2, EvSerWrite1 59 1 8 2 2, EvSerWrite1 61 2 9 2 2,
             EvSerWrite1 63 3 10 2 2, EvFileWrite [255] 1] = [] @ evs @ [EvFileWrite (EOT ideal_env) n]
         \<and> length evs = 2 ^ nat 2
         \<and> first_table_layout f1 2 57 0 evs
         \<and> (8::int) = sum_list (map entry_bytes evs))"
proof -
  have k: "(0::int) \<le> 2" "(2::int) \<le> 63" by simp_all
  from WriteFirstTable_writes_all_entries [OF k WriteFirstTable_ideal_run] WriteFirstTable_ideal_run k
  show ?thesis by blast
qed

section \<open>Properties of At\<close>

lemma call_Encrypt_nil [simp]:
  "call_Encrypt c calls [] src = (calls @ [([], src)], case c [] src of None \<Rightarrow> None | Some out \<Rightarrow> Some [])"
  by (simp add: call_Encrypt_def split: option.splits)

lemma SetBytes_nil [simp]: "SetBytes [] = 0"
  by (simp add: SetBytes_def)

lemma At_128_calls: "(\<forall>call \<in> set (fst (At_128 henv c x y k)). fst call = []) \<and> fst (At_128 henv c x y k) \<noteq> []
   \<and> snd (At_128 henv c x y k) \<in> {None, Some []}"
  by (simp add: At_128_def Let_def split: option.splits)

lemma At_256_calls: "(\<forall>call \<in> set (fst (At_256 c x y)). fst call = []) \<and> fst (At_256 c x y) \<noteq> []
   \<and> snd (At_256 c x y) \<in> {None, Some []}"
  by (simp add: At_256_def Let_def split: option.splits)

lemma At_384_calls: "(\<forall>call \<in> set (fst (At_384 henv c xl xh yl yh k)). fst call = []) \<and> fst (At_384 henv c xl xh yl yh k) \<noteq> []
   \<and> snd (At_384 henv c xl xh yl yh k) \<in> {None, Some []}"
  by (simp add: At_384_def Let_def split: option.splits)

lemma At_512_calls: "(\<forall>call \<in> set (fst (At_512 c xl xh yl yh)). fst call = []) \<and> fst (At_512 c xl xh yl yh) \<noteq> []
   \<and> snd (At_512 c xl xh yl yh) \<in> {None, Some []}"
  by (simp add: At_512_def Let_def split: option.splits)

lemma At_cases_total:
  assumes "\<forall>src. c [] src \<noteq> None"
  shows "snd (At_128 henv c x y k) = Some []" "snd (At_256 c x y) = Some []"
    "snd (At_384 henv c xl xh yl yh k) = Some []" "snd (At_512 c xl xh yl yh) = Some []"
  using assms
  by (auto simp: At_128_def At_256_def At_384_def At_512_def Let_def split: option.splits)

lemma At_unfold:
  "CollaSize henv t = Inr cs \<Longrightarrow>
   At henv c x y k t =
     (fst (At_switch henv c x y (x mod 2 ^ 128) (x div 2 ^ 128) (y mod 2 ^ 128) (y div 2 ^ 128) k (At_size k cs)),
      case snd (At_switch henv c x y (x mod 2 ^ 128) (x div 2 ^ 128) (y mod 2 ^ 128) (y div 2 ^ 128) k (At_size k cs)) of
        None \<Rightarrow> Panic
      | Some cipherText \<Rightarrow> Ret (Uint64 (Trunc henv (SetBytes cipherText) 0 (k + 5) k), None))"
  by (simp add: At_def Let_def split: option.splits)

lemma At_switch_calls:
  "(\<forall>call \<in> set (fst (At_switch henv c x y xl xh yl yh k sz)). fst call = [])
   \<and> snd (At_switch henv c x y xl xh yl yh k sz) \<in> {None, Some []}"
  using At_128_calls [of henv c x y k] At_256_calls [of c x y]
    At_384_calls [of henv c xl xh yl yh k] At_512_calls [of c xl xh yl yh]
  by (simp add: At_switch_def)

lemma At_switch_nonempty:
  "0 \<le> sz \<Longrightarrow> sz \<le> 512 \<Longrightarrow> fst (At_switch henv c x y xl xh yl yh k sz) \<noteq> []"
  using At_128_calls [of henv c x y k] At_256_calls [of c x y]
    At_384_calls [of henv c xl xh yl yh k] At_512_calls [of c xl xh yl yh]
  by (auto simp: At_switch_def)

lemma At_switch_total:
  "\<forall>src. c [] src \<noteq> None \<Longrightarrow> snd (At_switch henv c x y xl xh yl yh k sz) = Some []"
  by (simp add: At_switch_def At_cases_total)

text \<open>
  C3. Whenever \<open>CollaSize\<close> succeeds, every call of \<open>Encrypt\<close> that \<open>At\<close> makes
  receives the nil slice as its destination, of length 0, below the 16 bytes of a
  block; when a case of the switch runs (\<open>0 \<le> size \<le> 512\<close>) at least one such call
  is made. The ciphertext read back is empty: \<open>At\<close> either panics inside the cipher
  or returns \<open>Trunc(0, 0, k+5, k)\<close> with a nil error, and for a cipher that returns
  from every call it returns that value, whatever \<open>x\<close>, \<open>y\<close> and the cipher are.
\<close>

theorem At_destination_never_allocated:
  assumes "CollaSize henv t = Inr cs"
  shows "(\<forall>call \<in> set (fst (At henv c x y k t)). fst call = [] \<and> length (fst call) < 16)
     \<and> (0 \<le> At_size k cs \<and> At_size k cs \<le> 512 \<longrightarrow> fst (At henv c x y k t) \<noteq> [])
     \<and> (snd (At henv c x y k t) = Panic
         \<or> snd (At henv c x y k t) = Ret (Uint64 (Trunc henv 0 0 (k + 5) k), None))
     \<and> ((\<forall>src. c [] src \<noteq> None) \<longrightarrow>
           snd (At henv c x y k t) = Ret (Uint64 (Trunc henv 0 0 (k + 5) k), None))"
proof -
  define r where
    "r = At_switch henv c x y (x mod 2 ^ 128) (x div 2 ^ 128) (y mod 2 ^ 128) (y div 2 ^ 128) k (At_size k cs)"
  have u: "At henv c x y k t =
       (fst r, case snd r of None \<Rightarrow> Panic
               | Some cipherText \<Rightarrow> Ret (Uint64 (Trunc henv (SetBytes cipherText) 0 (k + 5) k), None))"
    unfolding r_def by (rule At_unfold [OF assms])
  have calls: "\<forall>call \<in> set (fst r). fst call = []" and out: "snd r = None \<or> snd r = Some []"
    using At_switch_calls [of henv c x y _ _ _ _ k "At_size k cs"] unfolding r_def by auto
  have a: "\<forall>call \<in> set (fst (At henv c x y k t)). fst call = [] \<and> length (fst call) < 16"
    using calls by (simp add: u)
  have b: "0 \<le> At_size k cs \<and> At_size k cs \<le> 512 \<longrightarrow> fst (At henv c x y k t) \<noteq> []"
    using At_switch_nonempty [of "At_size k cs" henv c x y _ _ _ _ k] unfolding u r_def by simp
  have d: "snd (At henv c x y k t) = Panic
         \<or> snd (At henv c x y k t) = Ret (Uint64 (Trunc henv 0 0 (k + 5) k), None)"
    using out by (auto simp: u)
  have e: "(\<forall>src. c [] src \<noteq> None) \<longrightarrow>
           snd (At henv c x y k t) = Ret (Uint64 (Trunc henv 0 0 (k + 5) k), None)"
    using At_switch_total [of c henv x y _ _ _ _ k "At_size k cs"] unfolding u r_def by simp
  from a b d e show ?thesis by blast
qed


theorem At_destination_never_allocated_witness:
  "CollaSize sample_henv 4 = Inr 4
   \<and> (\<forall>src. sample_cipher [] src \<noteq> None)
   \<and> At_size 32 4 = 256
   \<and> fst (At sample_henv sample_cipher 5 9 32 4) = [([], [5]), ([], [9])]
   \<and> snd (At sample_henv sample_cipher 5 9 32 4) = Ret (0, None)"
proof -
  have cs: "CollaSize sample_henv 4 = Inr 4"
    by (simp add: sample_henv_def)
  have tot: "\<forall>src. sample_cipher [] src \<noteq> None"
    by (simp add: sample_cipher_def)
  have sz: "At_size 32 4 = 256"
    by (simp add: At_size_def)
  have b5: "Bytes 5 = [5]" and b9: "Bytes 9 = [9]"
    by (simp_all add: Bytes_def nat_bytes.simps)
  have calls: "fst (At sample_henv sample_cipher 5 9 32 4) = [([], [5]), ([], [9])]"
    by (simp add: At_def Let_def cs sz At_switch_def At_256_def sample_cipher_def b5 b9)
  have tr: "Trunc sample_henv 0 0 (32 + 5) 32 = 0"
    by (simp add: sample_henv_def)
  from At_destination_never_allocated [OF cs, of sample_cipher 5 9 32] tot cs sz calls tr
  show ?thesis by (simp add: Uint64_def)
qed

text \<open>
  C4, as the code has it. \<open>At\<close> returns an error exactly when \<open>CollaSize(t)\<close>
  returns one, and then it returns that error with the value 0. It has no error of its
  own: when \<open>size\<close> is above 512 (or negative) no case of the switch runs, no call is
  made and \<open>At\<close> returns \<open>Trunc(0, 0, k+5, k)\<close> with a nil error; \<open>Encrypt\<close> has no
  error result to pass on, and with a cipher that returns from every call \<open>At\<close>
  returns a value with a nil error whenever \<open>CollaSize\<close> succeeds.
\<close>

theorem At_error_only_from_CollaSize:
  "((\<exists>r e. snd (At henv c x y k t) = Ret (r, Some e)) \<longleftrightarrow> (\<exists>e. CollaSize henv t = Inl e))
   \<and> (\<forall>e. CollaSize henv t = Inl e \<longrightarrow> At henv c x y k t = ([], Ret (0, Some e)))
   \<and> (\<forall>cs. CollaSize henv t = Inr cs \<and> (At_size k cs < 0 \<or> 512 < At_size k cs) \<longrightarrow>
        At henv c x y k t = ([], Ret (Uint64 (Trunc henv 0 0 (k + 5) k), None)))
   \<and> (\<forall>cs. CollaSize henv t = Inr cs \<and> (\<forall>src. c [] src \<noteq> None) \<longrightarrow>
        (\<exists>r. snd (At henv c x y k t) = Ret (r, None)))"
proof -
  have a: "\<forall>e. CollaSize henv t = Inl e \<longrightarrow> At henv c x y k t = ([], Ret (0, Some e))"
    by (simp add: At_def Let_def)
  have b: "\<forall>cs. CollaSize henv t = Inr cs \<longrightarrow> (\<forall>r e'. snd (At henv c x y k t) \<noteq> Ret (r, Some e'))"
    by (auto simp: At_def Let_def split: option.splits)
  have d: "\<forall>cs. CollaSize henv t = Inr cs \<and> (At_size k cs < 0 \<or> 512 < At_size k cs) \<longrightarrow>
        At henv c x y k t = ([], Ret (Uint64 (Trunc henv 0 0 (k + 5) k), None))"
    by (auto simp: At_def Let_def At_switch_def)
  have e: "\<forall>cs. CollaSize henv t = Inr cs \<and> (\<forall>src. c [] src \<noteq> None) \<longrightarrow>
        (\<exists>r. snd (At henv c x y k t) = Ret (r, None))"
    using At_switch_total [of c henv x y _ _ _ _ k] by (auto simp: At_unfold)
  have iff: "(\<exists>r e. snd (At henv c x y k t) = Ret (r, Some e)) \<longleftrightarrow> (\<exists>e. CollaSize henv t = Inl e)"
  proof (cases "CollaSize henv t")
    case (Inl e)
    with a show ?thesis by auto
  next
    case (Inr cs)
    with b show ?thesis by auto
  qed
  from iff a d e show ?thesis by blast
qed

theorem At_error_only_from_CollaSize_witness:
  "CollaSize sample_henv 9 = Inl (Error ''invalid table index'')
   \<and> At sample_henv sample_cipher 1 2 100 9 = ([], Ret (0, Some (Error ''invalid table index'')))
   \<and> CollaSize sample_henv 5 = Inr 4
   \<and> At_size 100 4 = 800
   \<and> At sample_henv sample_cipher 1 2 100 5 = ([], Ret (0, None))"
proof -
  have c9: "CollaSize sample_henv 9 = Inl (Error ''invalid table index'')"
    and c5: "CollaSize sample_henv 5 = Inr 4"
    by (simp_all add: sample_henv_def)
  have sz: "At_size 100 4 = 800"
    by (simp add: At_size_def)
  have tr: "Trunc sample_henv 0 0 (100 + 5) 100 = 0"
    by (simp add: sample_henv_def)
  from At_error_only_from_CollaSize [of sample_henv sample_cipher 1 2 100 9]
    At_error_only_from_CollaSize [of sample_henv sample_cipher 1 2 100 5]
    c9 c5 sz tr
  show ?thesis by (simp add: Uint64_def)
qed

text \<open>
  The claim C4 as stated fails: with collation size 4 and \<open>k = 100\<close> the size is 800,
  above 512, and \<open>At\<close> returns the value 0 with a nil error.
\<close>

theorem At_oversize_returns_no_error:
  "CollaSize sample_henv 4 = Inr 4
   \<and> At_size 100 4 = 800
   \<and> At sample_henv sample_cipher 1 2 100 4 = ([], Ret (0, None))"
  by (simp add: At_def Let_def At_size_def At_switch_def sample_henv_def Uint64_def SetBytes_def)


section \<open>Histories of the phases\<close>

text \<open>
  Each phase only appends to the history, and only events of its own kind. The
  observations of a history (\<open>file_writes\<close>, \<open>milestones\<close>, \<open>sort_args\<close>,
  \<open>table_writes\<close>) distribute over append, so what a phase adds to each of them
  follows from the kind of its events.
\<close>

lemma milestones_append: "milestones (xs @ ys) = milestones xs @ milestones ys"
  by (induction xs rule: milestones.induct) simp_all

lemma sort_args_append: "sort_args (xs @ ys) = sort_args xs @ sort_args ys"
  by (induction xs rule: sort_args.induct) simp_all

lemma pass_events_silent:
  "list_all pass_event evs \<Longrightarrow> file_writes evs = [] \<and> milestones evs = [] \<and> sort_args evs = []"
  by (induction evs rule: file_writes.induct) simp_all

lemma setup_events_silent:
  "list_all setup_event evs \<Longrightarrow> milestones evs = [] \<and> sort_args evs = []"
  by (induction evs rule: milestones.induct) simp_all

lemma WriteHeader_hist:
  "\<exists>evs. fst (WriteHeader env tr k memo plotid) = tr @ evs \<and> list_all setup_event evs"
  by (simp add: WriteHeader_def call_file_Write_def Let_def case_prod_beta)

lemma WriteFirstTable_loop_hist:
  "\<exists>evs. fst (WriteFirstTable_loop env f1 k start maxNumber x tr wrote) = tr @ evs
     \<and> list_all setup_event evs"
proof (induction "nat (maxNumber - int x)" arbitrary: x tr wrote)
  case 0
  then have "\<not> int x < maxNumber" by simp
  then show ?case
    by (simp add: WriteFirstTable_loop.simps)
next
  case (Suc m)
  then have lt: "int x < maxNumber" by linarith
  define r where "r = call_serialize_Write1 env tr (start + wrote) (word_of_nat x) (f1 (word_of_nat x)) k"
  have trr: "fst r = tr @ [EvSerWrite1 (start + wrote) (word_of_nat x) (f1 (word_of_nat x)) k (fst (snd r))]"
    by (simp add: r_def call_serialize_Write1_def Let_def)
  have m: "m = nat (maxNumber - int (x + 1))"
    using Suc.hyps(2) by simp
  from Suc.hyps(1) [OF m, of "fst r" "wrote + fst (snd r)"] obtain evs where
    evs: "fst (WriteFirstTable_loop env f1 k start maxNumber (x + 1) (fst r) (wrote + fst (snd r))) = fst r @ evs"
      "list_all setup_event evs"
    by blast
  show ?case
    using lt evs trr
    by (subst WriteFirstTable_loop.simps) (simp add: Let_def r_def [symmetric])
qed

lemma WriteFirstTable_hist:
  "\<exists>evs. fst (WriteFirstTable env tr k start plotid) = tr @ evs \<and> list_all setup_event evs"
proof (cases "NewF1 env k plotid")
  case (Inl e)
  then show ?thesis by (simp add: WriteFirstTable_def)
next
  case (Inr f1)
  from WriteFirstTable_loop_hist [of env f1 k start "pow2 k" 0 tr 0] obtain evs where
    "fst (WriteFirstTable_loop env f1 k start (pow2 k) 0 tr 0) = tr @ evs" "list_all setup_event evs"
    by blast
  then show ?thesis
    using Inr by (simp add: WriteFirstTable_def Let_def case_prod_beta call_file_Write_def)
qed

lemma write_matches_hist:
  "\<exists>evs. fst (write_matches env fx t k cs tr w ms) = tr @ evs \<and> list_all pass_event evs"
proof (induction ms arbitrary: tr w)
  case Nil
  then show ?case by simp
next
  case (Cons m ms)
  show ?case
  proof (cases "fx t (Left m) (LeftMetadata m) (RightMetadata m)")
    case (Inl e)
    then show ?thesis by simp
  next
    case (Inr f)
    show ?thesis
    proof (cases "Collate env t (word_of_int k) (LeftMetadata m) (RightMetadata m)")
      case (Inl e)
      with Inr show ?thesis by simp
    next
      case (Inr collated)
      define r where "r = call_serialize_WriteT env tr (cs + w) f collated k"
      have fr: "fst r = tr @ [EvSerWriteT (cs + w) f collated k (fst (snd r))]"
        by (simp add: r_def call_serialize_WriteT_def Let_def)
      show ?thesis
      proof (cases "snd (snd r) = None")
        case False
        then show ?thesis
          using \<open>fx t (Left m) (LeftMetadata m) (RightMetadata m) = Inr f\<close> Inr fr
          by (simp add: Let_def r_def [symmetric])
      next
        case True
        from Cons.IH [of "fst r" "w + fst (snd r)"] obtain evs where
          "fst (write_matches env fx t k cs (fst r) (w + fst (snd r)) ms) = fst r @ evs"
          "list_all pass_event evs" by blast
        then show ?thesis
          using \<open>fx t (Left m) (LeftMetadata m) (RightMetadata m) = Inr f\<close> Inr fr True
          by (simp add: Let_def r_def [symmetric])
      qed
    qed
  qed
qed

lemma WriteTable_entry_hist:
  "\<exists>evs. hist (fst (WriteTable_entry env fx t k cs s e n)) = hist s @ evs \<and> list_all pass_event evs"
  using write_matches_hist [of env fx t k cs "hist s" "written s"
      "FindMatches env (leftBucket s) (rightBucket s)"]
  by (auto simp: WriteTable_entry_def Let_def)

lemma WriteTable_loop_hist:
  "\<exists>evs. hist (fst (WriteTable_loop env fx t k p cs l s reads)) = hist s @ evs \<and> list_all pass_event evs"
proof (induction reads arbitrary: s)
  case Nil
  then show ?case by simp
next
  case (Cons r rs)
  define s1 where "s1 = s\<lparr>hist := hist s @ [EvSerRead (p + read s) l k]\<rparr>"
  show ?case
  proof (cases r)
    case (ReadOk e n)
    obtain s' err where st: "WriteTable_entry env fx t k cs s1 e n = (s', err)"
      by (cases "WriteTable_entry env fx t k cs s1 e n") auto
    from WriteTable_entry_hist [of env fx t k cs s1 e n] st obtain evs1 where
      e1: "hist s' = hist s1 @ evs1" "list_all pass_event evs1" by auto
    show ?thesis
    proof (cases err)
      case (Some x)
      then show ?thesis using ReadOk st e1
        by (simp add: Let_def s1_def [symmetric]) (simp add: s1_def)
    next
      case None
      from Cons.IH [of s'] obtain evs2 where
        e2: "hist (fst (WriteTable_loop env fx t k p cs l s' rs)) = hist s' @ evs2"
          "list_all pass_event evs2" by blast
      show ?thesis using ReadOk st e1 e2 None
        by (simp add: Let_def s1_def [symmetric]) (simp add: s1_def)
    qed
  qed (simp_all add: Let_def)
qed

lemma WriteTable_hist:
  "\<exists>evs. fst (WriteTable env tr k t p c l fx) = tr @ EvWriteTable t p c l # evs
     \<and> list_all pass_event evs"
  using WriteTable_loop_hist [of env fx t k p c l
      "WriteTable_init (tr @ [EvWriteTable t p c l])" "table_reads env tr"]
  by (auto simp: WriteTable_def Let_def WriteTable_init_def)



lemma milestones_WriteHeader [simp]:
  "milestones (fst (WriteHeader env tr k memo plotid)) = milestones tr"
  using WriteHeader_hist [of env tr k memo plotid]
  by (auto simp: milestones_append setup_events_silent)

lemma milestones_WriteFirstTable [simp]:
  "milestones (fst (WriteFirstTable env tr k start plotid)) = milestones tr"
  using WriteFirstTable_hist [of env tr k start plotid]
  by (auto simp: milestones_append setup_events_silent)

lemma milestones_WriteTable [simp]:
  "milestones (fst (WriteTable env tr k t p c l fx)) = milestones tr @ [Pass t]"
  using WriteTable_hist [of env tr k t p c l fx]
  by (auto simp: milestones_append pass_events_silent)

lemma sort_args_WriteHeader [simp]:
  "sort_args (fst (WriteHeader env tr k memo plotid)) = sort_args tr"
  using WriteHeader_hist [of env tr k memo plotid]
  by (auto simp: sort_args_append setup_events_silent)

lemma sort_args_WriteFirstTable [simp]:
  "sort_args (fst (WriteFirstTable env tr k start plotid)) = sort_args tr"
  using WriteFirstTable_hist [of env tr k start plotid]
  by (auto simp: sort_args_append setup_events_silent)

lemma sort_args_WriteTable [simp]:
  "sort_args (fst (WriteTable env tr k t p c l fx)) = sort_args tr"
  using WriteTable_hist [of env tr k t p c l fx]
  by (auto simp: sort_args_append pass_events_silent)

lemma table_writes_append: "table_writes (xs @ ys) = table_writes xs @ table_writes ys"
  by (induction xs rule: table_writes.induct) simp_all

text \<open>
  The table loop of \<open>WritePlotFile\<close> runs its body once: the body ends in \<open>break\<close>,
  so the loop is left after the pass for its first \<open>t\<close>, whatever that pass returned
  short of an error.
\<close>

lemma table_loop_one_iteration:
  "table_loop env k maxNumber fx t (tr, p, c, l) =
     (if t \<le> 7 then
        (fst (WriteTable env tr k t p c l fx),
         if snd (snd (WriteTable env tr k t p c l fx)) \<noteq> None
         then Ret (snd (snd (WriteTable env tr k t p c l fx)))
         else case go_div (fst (snd (WriteTable env tr k t p c l fx))) maxNumber of
                None \<Rightarrow> Panic
              | Some entryLen \<Rightarrow> Ret None)
      else (tr, Ret None))"
  by (subst table_loop.simps) (simp add: table_loop_body_def Let_def split: option.splits)

lemma WritePlotFile_milestones:
  "prefix (milestones (fst (WritePlotFile env filename k availableMemory memo plotid)))
     [Sorted, Pass 2]"
  by (simp add: WritePlotFile_def Let_def case_prod_beta call_fs_Create_def call_sort_OnDisk_def
      table_loop_one_iteration milestones_append split: option.splits sum.splits)


lemma prefix_two_cases:
  "prefix xs [a, b] \<Longrightarrow> xs = [] \<or> xs = [a] \<or> xs = [a, b]"
  by (cases xs) (auto simp: prefix_Cons)

text \<open>Concrete runs, evaluated phase by phase.\<close>

lemma sample_header_run:
  "file_Write env = (\<lambda>tr p. (int (length p), None)) \<Longrightarrow>
   WriteHeader env tr 1 [] [] =
     (tr @ [EvFileWrite magic 19, EvFileWrite [] 0, EvFileWrite [1] 1,
            EvFileWrite [0, 0] 2, EvFileWrite [] 0], 22, None)"
  by (simp add: WriteHeader_def call_file_Write_def Let_def sizeBuf_eq magic_def bytes_of_string_def)

lemma two_bucket_first_table_run:
  "WriteFirstTable two_bucket_env tr 1 22 [] =
     (tr @ [EvSerWrite1 22 0 7 1 2, EvSerWrite1 24 1 8 1 2, EvFileWrite [255] 1], 4, None)"
  by (simp add: WriteFirstTable_def Let_def pow2_def two_bucket_env_def ideal_env_def
      WriteFirstTable_loop.simps call_serialize_Write1_def call_file_Write_def)

lemma two_bucket_table_run:
  "WriteTable two_bucket_env tr 1 2 22 26 2 fx =
     (tr @ [EvWriteTable 2 22 26 2, EvSerRead 22 2 1, EvSerRead 24 2 1, EvSerRead 26 2 1],
      0, None)"
  by (simp add: WriteTable_def Let_def WriteTable_init_def WriteTable_entry_def
      two_bucket_env_def ideal_env_def)

lemma later_entry_table_run:
  "WriteTable later_entry_env tr 1 2 22 26 2 sample_fx =
     (tr @ [EvWriteTable 2 22 26 2, EvSerRead 22 2 1, EvSerRead 24 2 1, EvSerRead 26 2 1,
            EvSerWriteT 26 1 21 1 3, EvSerRead 28 2 1],
      3, None)"
  by (simp add: WriteTable_def Let_def WriteTable_init_def WriteTable_entry_def
      later_entry_env_def ideal_env_def all_pairs_def sample_fx_def call_serialize_WriteT_def)

lemma two_bucket_run:
  "WritePlotFile two_bucket_env ''plot'' 1 100 [] [] =
     ([EvCreate ''plot'', EvFileWrite magic 19, EvFileWrite [] 0, EvFileWrite [1] 1,
       EvFileWrite [0, 0] 2, EvFileWrite [] 0,
       EvSerWrite1 22 0 7 1 2, EvSerWrite1 24 1 8 1 2, EvFileWrite [255] 1,
       EvSort False 22 26 100 2 2 1,
       EvWriteTable 2 22 26 2, EvSerRead 22 2 1, EvSerRead 24 2 1, EvSerRead 26 2 1],
      Ret None)"
proof -
  have fw: "file_Write two_bucket_env = (\<lambda>tr p. (int (length p), None))"
    and cr: "fs_Create two_bucket_env = (\<lambda>tr name. None)"
    and so: "sort_OnDisk two_bucket_env = (\<lambda>tr spare b e mem el mx k. None)"
    and nf: "NewFx two_bucket_env = (\<lambda>k plotid. Inr sample_fx)"
    by (simp_all add: two_bucket_env_def ideal_env_def)
  show ?thesis
    by (simp add: WritePlotFile_def Let_def call_fs_Create_def call_sort_OnDisk_def
        sample_header_run [OF fw] two_bucket_first_table_run two_bucket_table_run
        table_loop_one_iteration cr so nf pow2_def go_div_def)
qed


lemma uneven_first_table_run:
  "WriteFirstTable uneven_env tr 1 22 [] =
     (tr @ [EvSerWrite1 22 0 7 1 2, EvSerWrite1 24 1 8 1 1, EvFileWrite [255] 1], 3, None)"
  by (simp add: WriteFirstTable_def Let_def pow2_def uneven_env_def two_bucket_env_def ideal_env_def
      WriteFirstTable_loop.simps call_serialize_Write1_def call_file_Write_def)

lemma uneven_table_run:
  "WriteTable uneven_env tr 1 2 22 25 1 fx =
     (tr @ [EvWriteTable 2 22 25 1, EvSerRead 22 1 1, EvSerRead 24 1 1, EvSerRead 26 1 1],
      0, None)"
  by (simp add: WriteTable_def Let_def WriteTable_init_def WriteTable_entry_def
      uneven_env_def two_bucket_env_def ideal_env_def)

lemma uneven_run:
  "WritePlotFile uneven_env ''plot'' 1 100 [] [] =
     ([EvCreate ''plot'', EvFileWrite magic 19, EvFileWrite [] 0, EvFileWrite [1] 1,
       EvFileWrite [0, 0] 2, EvFileWrite [] 0,
       EvSerWrite1 22 0 7 1 2, EvSerWrite1 24 1 8 1 1, EvFileWrite [255] 1,
       EvSort False 22 25 100 1 2 1,
       EvWriteTable 2 22 25 1, EvSerRead 22 1 1, EvSerRead 24 1 1, EvSerRead 26 1 1],
      Ret None)"
proof -
  have fw: "file_Write uneven_env = (\<lambda>tr p. (int (length p), None))"
    and cr: "fs_Create uneven_env = (\<lambda>tr name. None)"
    and so: "sort_OnDisk uneven_env = (\<lambda>tr spare b e mem el mx k. None)"
    and nf: "NewFx uneven_env = (\<lambda>k plotid. Inr sample_fx)"
    by (simp_all add: uneven_env_def two_bucket_env_def ideal_env_def)
  show ?thesis
    by (simp add: WritePlotFile_def Let_def call_fs_Create_def call_sort_OnDisk_def
        sample_header_run [OF fw] uneven_first_table_run uneven_table_run
        table_loop_one_iteration cr so nf pow2_def go_div_def)
qed

section \<open>Properties of WriteTable\<close>

lemma WriteTable_entry_classified:
  assumes "BucketID env (Fx e) = bucketID s \<or> BucketID env (Fx e) = bucketID s + 1"
  shows "snd (WriteTable_entry env fx t k c s e n) = None"
    "bucketID (fst (WriteTable_entry env fx t k c s e n)) = bucketID s"
    "written (fst (WriteTable_entry env fx t k c s e n)) = written s"
    "hist (fst (WriteTable_entry env fx t k c s e n)) = hist s"
  using assms by (auto simp: WriteTable_entry_def Let_def)

lemma WriteTable_loop_no_flush:
  "list_all (in_buckets env (bucketID s)) reads \<Longrightarrow>
   written (fst (WriteTable_loop env fx t k p c l s reads)) = written s
   \<and> table_writes (hist (fst (WriteTable_loop env fx t k p c l s reads))) = table_writes (hist s)
   \<and> snd (WriteTable_loop env fx t k p c l s reads) = None"
proof (induction reads arbitrary: s)
  case Nil
  then show ?case by (simp add: table_writes_append)
next
  case (Cons r rs)
  define s1 where "s1 = s\<lparr>hist := hist s @ [EvSerRead (p + read s) l k]\<rparr>"
  have s1: "bucketID s1 = bucketID s" "written s1 = written s"
    "table_writes (hist s1) = table_writes (hist s)"
    by (simp_all add: s1_def table_writes_append)
  show ?case
  proof (cases r)
    case (ReadOk e n)
    with Cons.prems have b: "BucketID env (Fx e) = bucketID s1 \<or> BucketID env (Fx e) = bucketID s1 + 1"
      by (simp add: s1)
    define s' where "s' = fst (WriteTable_entry env fx t k c s1 e n)"
    note cl = WriteTable_entry_classified [OF b, of fx t k c n, folded s'_def]
    have st: "WriteTable_entry env fx t k c s1 e n = (s', None)"
      using cl(1) by (simp add: s'_def prod_eq_iff)
    from Cons.prems have "list_all (in_buckets env (bucketID s')) rs"
      by (simp add: cl(2) s1)
    from Cons.IH [OF this] show ?thesis
      using ReadOk st cl s1
      by (simp add: Let_def s1_def [symmetric])
  next
    case ReadErr
    with Cons.prems show ?thesis by simp
  qed (simp_all add: Let_def table_writes_append)
qed

text \<open>
  C1, as the code has it. The claim asks that at the end of the stream the buckets
  still accumulated be matched and the matches written. The code leaves the loop at the
  sentinel (or the end of the file) and returns: on every stream whose entries all
  belong to the buckets 0 and 1, and so on a stream of exactly two non-empty adjacent
  buckets, \<open>WriteTable\<close> returns 0 bytes written with a nil error and has written no
  entry, whatever \<open>FindMatches\<close> would find in the two buckets. (The same two buckets
  followed by an entry of a later bucket do get their match written, by the default
  branch.)
\<close>

theorem WriteTable_no_flush_at_end_of_stream:
  assumes "list_all (in_buckets env 0) (table_reads env tr)"
  shows "fst (snd (WriteTable env tr k t p c l fx)) = 0
     \<and> table_writes (fst (WriteTable env tr k t p c l fx)) = table_writes tr
     \<and> snd (snd (WriteTable env tr k t p c l fx)) = None"
  using WriteTable_loop_no_flush [of env "WriteTable_init (tr @ [EvWriteTable t p c l])"
      "table_reads env tr" fx t k p c l] assms
  by (simp add: WriteTable_def Let_def WriteTable_init_def table_writes_append)

theorem WriteTable_no_flush_at_end_of_stream_witness:
  "list_all (in_buckets two_bucket_env 0) (table_reads two_bucket_env [])
   \<and> FindMatches two_bucket_env [\<lparr>Fx = 0, Index = 0, Metadata = 10\<rparr>]
        [\<lparr>Fx = 1, Index = 1, Metadata = 11\<rparr>]
       = [\<lparr>Left = 0, LeftMetadata = 10, RightMetadata = 11\<rparr>]
   \<and> WriteTable two_bucket_env [] 1 2 22 26 2 sample_fx =
       ([EvWriteTable 2 22 26 2, EvSerRead 22 2 1, EvSerRead 24 2 1, EvSerRead 26 2 1], 0, None)
   \<and> table_writes (fst (WriteTable two_bucket_env [] 1 2 22 26 2 sample_fx)) = []
   \<and> table_writes (fst (WriteTable later_entry_env [] 1 2 22 26 2 sample_fx))
       = [EvSerWriteT 26 1 21 1 3]"
proof -
  have h: "list_all (in_buckets two_bucket_env 0) (table_reads two_bucket_env [])"
    by (simp add: two_bucket_env_def ideal_env_def)
  have m: "FindMatches two_bucket_env [\<lparr>Fx = 0, Index = 0, Metadata = 10\<rparr>]
        [\<lparr>Fx = 1, Index = 1, Metadata = 11\<rparr>]
       = [\<lparr>Left = 0, LeftMetadata = 10, RightMetadata = 11\<rparr>]"
    by (simp add: two_bucket_env_def ideal_env_def all_pairs_def)
  from WriteTable_no_flush_at_end_of_stream [OF h, of 1 2 22 26 2 sample_fx]
    h m two_bucket_table_run [of "[]" sample_fx] later_entry_table_run [of "[]"]
  show ?thesis by simp
qed

text \<open>
  C5, as the code has it. The claim asks that the entry that fires the default branch
  be classified again after the window moved and appended to a bucket. When the default
  branch ends without an error, the right bucket is empty, the left bucket is the old
  right bucket (slide) or empty (reset), and the index has advanced: the entry that
  fired the branch, whose bucket is the new \<open>bucketID + 1\<close> after a slide and the new
  \<open>bucketID\<close> after a reset, is in neither bucket.
\<close>

theorem WriteTable_entry_default_discards_entry:
  assumes "BucketID env (Fx e) \<noteq> bucketID s" "BucketID env (Fx e) \<noteq> bucketID s + 1"
    and "snd (WriteTable_entry env fx t k c s e n) = None"
  shows "rightBucket (fst (WriteTable_entry env fx t k c s e n)) = []
     \<and> leftBucket (fst (WriteTable_entry env fx t k c s e n)) =
         (if BucketID env (Fx e) = bucketID s + 2 then rightBucket s else [])
     \<and> bucketID (fst (WriteTable_entry env fx t k c s e n)) =
         (if BucketID env (Fx e) = bucketID s + 2 then bucketID s + 1 else BucketID env (Fx e))
     \<and> index (fst (WriteTable_entry env fx t k c s e n)) = index s + 1"
  using assms by (auto simp: WriteTable_entry_def Let_def split: if_splits)

theorem WriteTable_entry_default_discards_entry_witness:
  "BucketID ideal_env (Fx \<lparr>Fx = 2, Index = 0, Metadata = 10\<rparr>) \<noteq> bucketID (WriteTable_init [])
   \<and> BucketID ideal_env (Fx \<lparr>Fx = 2, Index = 0, Metadata = 10\<rparr>) \<noteq> bucketID (WriteTable_init []) + 1
   \<and> WriteTable_entry ideal_env sample_fx 2 1 26 (WriteTable_init [])
        \<lparr>Fx = 2, Index = 0, Metadata = 10\<rparr> 2
      = (\<lparr>hist = [], read = 2, written = 0, bucketID = 1, leftBucket = [], rightBucket = [],
          index = 1\<rparr>, None)"
proof -
  have a: "BucketID ideal_env (Fx \<lparr>Fx = 2, Index = 0, Metadata = 10\<rparr>) \<noteq> bucketID (WriteTable_init [])"
    and b: "BucketID ideal_env (Fx \<lparr>Fx = 2, Index = 0, Metadata = 10\<rparr>) \<noteq> bucketID (WriteTable_init []) + 1"
    by (simp_all add: ideal_env_def WriteTable_init_def)
  have r: "WriteTable_entry ideal_env sample_fx 2 1 26 (WriteTable_init [])
        \<lparr>Fx = 2, Index = 0, Metadata = 10\<rparr> 2
      = (\<lparr>hist = [], read = 2, written = 0, bucketID = 1, leftBucket = [], rightBucket = [],
          index = 1\<rparr>, None)"
    by (simp add: WriteTable_entry_def Let_def ideal_env_def WriteTable_init_def)
  then have c: "snd (WriteTable_entry ideal_env sample_fx 2 1 26 (WriteTable_init [])
        \<lparr>Fx = 2, Index = 0, Metadata = 10\<rparr> 2) = None"
    by simp
  from WriteTable_entry_default_discards_entry [OF a b c] a b r
  show ?thesis by simp
qed


lemma file_writes_empty_no_write:
  "file_writes evs = [] \<Longrightarrow> EvFileWrite p n \<notin> set evs"
  by (induction evs rule: file_writes.induct) auto

text \<open>
  C9, as the code has it. The claim asks that every table region end with the
  sentinel. \<open>WriteFirstTable\<close> writes it with \<open>file.Write\<close> (see C8); \<open>WriteTable\<close>
  never calls \<open>file.Write\<close>: all it adds to the history are reads and entry writes,
  so no derived table gets a sentinel.
\<close>

theorem WriteTable_writes_no_sentinel:
  "\<exists>evs. fst (WriteTable env tr k t p c l fx) = tr @ evs
     \<and> file_writes evs = [] \<and> (\<forall>n. EvFileWrite (EOT env) n \<notin> set evs)"
proof -
  from WriteTable_hist [of env tr k t p c l fx] obtain evs where
    evs: "fst (WriteTable env tr k t p c l fx) = tr @ EvWriteTable t p c l # evs"
      "list_all pass_event evs" by blast
  have "file_writes (EvWriteTable t p c l # evs) = []"
    using evs(2) by (simp add: pass_events_silent)
  then show ?thesis
    using evs(1) file_writes_empty_no_write by blast
qed


theorem WriteTable_writes_no_sentinel_witness:
  "fst (WriteTable two_bucket_env [] 1 2 22 26 2 sample_fx) =
     [] @ [EvWriteTable 2 22 26 2, EvSerRead 22 2 1, EvSerRead 24 2 1, EvSerRead 26 2 1]
   \<and> file_writes (fst (WriteTable two_bucket_env [] 1 2 22 26 2 sample_fx)) = []
   \<and> EOT two_bucket_env = [255]"
proof -
  have eot: "EOT two_bucket_env = [255]"
    by (simp add: two_bucket_env_def ideal_env_def)
  from WriteTable_writes_no_sentinel [of two_bucket_env "[]" 1 2 22 26 2 sample_fx] eot
  show ?thesis by (simp add: two_bucket_table_run)
qed

section \<open>Properties of WritePlotFile\<close>

text \<open>
  C2, as the code has it. The claim asks for a pass for every table from 2 to 7. In
  every run the only pass that starts is the one for table 2, and the run has at most
  two milestones (the sort of table 1 and that pass): the loop body ends in
  \<open>break // TODO: REMOVE\<close>.
\<close>

theorem WritePlotFile_runs_only_table_2:
  "(\<forall>t. Pass t \<in> set (milestones (fst (WritePlotFile env filename k availableMemory memo plotid)))
        \<longrightarrow> t = 2)
   \<and> length (milestones (fst (WritePlotFile env filename k availableMemory memo plotid))) \<le> 2"
  using prefix_two_cases [OF WritePlotFile_milestones [of env filename k availableMemory memo plotid]]
  by auto

theorem WritePlotFile_runs_only_table_2_witness:
  "Pass 2 \<in> set (milestones (fst (WritePlotFile two_bucket_env ''plot'' 1 100 [] [])))
   \<and> milestones (fst (WritePlotFile two_bucket_env ''plot'' 1 100 [] [])) = [Sorted, Pass 2]
   \<and> snd (WritePlotFile two_bucket_env ''plot'' 1 100 [] []) = Ret None"
  using WritePlotFile_runs_only_table_2 [of two_bucket_env "''plot''" 1 100 "[]" "[]"]
  by (simp add: two_bucket_run)

text \<open>
  C6, as the code has it. The claim asks that the pass for each table \<open>t\<close> be followed by
  a sort of table \<open>t\<close>. In no run is any pass followed by a sort: the only call of
  \<open>sort.OnDisk\<close> is the one for table 1, before the loop.
\<close>

theorem WritePlotFile_never_sorts_derived_table:
  "\<not> sorted_after t (milestones (fst (WritePlotFile env filename k availableMemory memo plotid)))"
  using prefix_two_cases [OF WritePlotFile_milestones [of env filename k availableMemory memo plotid]]
  by auto

theorem WritePlotFile_never_sorts_derived_table_witness:
  "milestones (fst (WritePlotFile two_bucket_env ''plot'' 1 100 [] [])) = [Sorted, Pass 2]
   \<and> snd (WritePlotFile two_bucket_env ''plot'' 1 100 [] []) = Ret None
   \<and> \<not> sorted_after 2 (milestones (fst (WritePlotFile two_bucket_env ''plot'' 1 100 [] [])))"
  using WritePlotFile_never_sorts_derived_table [of 2 two_bucket_env "''plot''" 1 100 "[]" "[]"]
  by (simp add: two_bucket_run)

lemma WriteHeader_ok:
  "\<forall>tr p. snd (file_Write env tr p) = None \<Longrightarrow> snd (snd (WriteHeader env tr k memo plotid)) = None"
  by (simp add: WriteHeader_def call_file_Write_def Let_def case_prod_beta)

lemma WriteFirstTable_loop_ok:
  assumes "\<forall>tr off x f1x k. snd (serialize_Write1 env tr off x f1x k) = None"
  shows "snd (snd (WriteFirstTable_loop env f1 k start maxNumber x tr wrote)) = None"
proof (induction "nat (maxNumber - int x)" arbitrary: x tr wrote)
  case 0
  then have "\<not> int x < maxNumber" by simp
  then show ?case
    by (simp add: WriteFirstTable_loop.simps)
next
  case (Suc m)
  then have lt: "int x < maxNumber" by linarith
  have m: "m = nat (maxNumber - int (x + 1))"
    using Suc.hyps(2) by simp
  show ?case
    using lt assms Suc.hyps(1) [OF m]
    by (subst WriteFirstTable_loop.simps) (simp add: Let_def call_serialize_Write1_def)
qed

lemma WriteFirstTable_ok:
  assumes "\<forall>tr off x f1x k. snd (serialize_Write1 env tr off x f1x k) = None"
    and "\<forall>tr p. snd (file_Write env tr p) = None"
    and "\<exists>f1. NewF1 env k plotid = Inr f1"
  shows "snd (snd (WriteFirstTable env tr k start plotid)) = None"
  using assms WriteFirstTable_loop_ok [OF assms(1)]
  by (auto simp: WriteFirstTable_def Let_def case_prod_beta call_file_Write_def)

lemma write_matches_ok:
  assumes "\<forall>tr off f c k. snd (serialize_WriteT env tr off f c k) = None"
    and "\<forall>t l lm rm. \<exists>f. fx t l lm rm = Inr f"
    and "\<forall>t k lm rm. \<exists>c. Collate env t k lm rm = Inr c"
  shows "snd (snd (write_matches env fx t k cs tr w ms)) = None"
proof (induction ms arbitrary: tr w)
  case Nil
  then show ?case by simp
next
  case (Cons m ms)
  from assms(2) obtain f where f: "fx t (Left m) (LeftMetadata m) (RightMetadata m) = Inr f"
    by blast
  from assms(3) obtain col where col: "Collate env t (word_of_int k) (LeftMetadata m) (RightMetadata m) = Inr col"
    by blast
  show ?case
    using f col assms(1) Cons.IH
    by (simp add: Let_def call_serialize_WriteT_def)
qed

lemma WriteTable_entry_ok:
  assumes "\<forall>tr off f c k. snd (serialize_WriteT env tr off f c k) = None"
    and "\<forall>t l lm rm. \<exists>f. fx t l lm rm = Inr f"
    and "\<forall>t k lm rm. \<exists>c. Collate env t k lm rm = Inr c"
  shows "snd (WriteTable_entry env fx t k cs s e n) = None"
  using write_matches_ok [OF assms]
  by (simp add: WriteTable_entry_def Let_def)

lemma WriteTable_loop_ok:
  assumes "\<forall>tr off f c k. snd (serialize_WriteT env tr off f c k) = None"
    and "\<forall>t l lm rm. \<exists>f. fx t l lm rm = Inr f"
    and "\<forall>t k lm rm. \<exists>c. Collate env t k lm rm = Inr c"
  shows "list_all readable reads \<Longrightarrow> snd (WriteTable_loop env fx t k p cs l s reads) = None"
proof (induction reads arbitrary: s)
  case Nil
  then show ?case by simp
next
  case (Cons r rs)
  show ?case
  proof (cases r)
    case (ReadOk e n)
    define s1 where "s1 = s\<lparr>hist := hist s @ [EvSerRead (p + read s) l k]\<rparr>"
    have "snd (WriteTable_entry env fx t k cs s1 e n) = None"
      by (rule WriteTable_entry_ok [OF assms])
    then obtain s' where "WriteTable_entry env fx t k cs s1 e n = (s', None)"
      by (cases "WriteTable_entry env fx t k cs s1 e n") auto
    then show ?thesis
      using ReadOk Cons by (simp add: Let_def s1_def [symmetric])
  next
    case ReadErr
    with Cons.prems show ?thesis by simp
  qed (simp_all add: Let_def)
qed

lemma WriteTable_ok:
  assumes "\<forall>tr off f c k. snd (serialize_WriteT env tr off f c k) = None"
    and "\<forall>t l lm rm. \<exists>f. fx t l lm rm = Inr f"
    and "\<forall>t k lm rm. \<exists>c. Collate env t k lm rm = Inr c"
    and "\<forall>tr. list_all readable (table_reads env tr)"
  shows "snd (snd (WriteTable env tr k t p c l fx)) = None"
  using WriteTable_loop_ok [OF assms(1-3)] assms(4)
  by (simp add: WriteTable_def Let_def)

lemma go_div_pow2:
  "0 \<le> k \<Longrightarrow> go_div w (pow2 k) = Some (sgn w * sgn (pow2 k) * (\<bar>w\<bar> div \<bar>pow2 k\<bar>))"
  by (simp add: go_div_def pow2_def)

lemma go_div_floor: "0 \<le> k \<Longrightarrow> 0 \<le> w \<Longrightarrow> go_div w (pow2 k) = Some (w div 2 ^ nat k)"
  by (cases "w = 0") (simp_all add: go_div_def pow2_def)

lemma WritePlotFile_ok:
  assumes nf: "never_fails env" and k: "0 \<le> k"
  shows "snd (WritePlotFile env filename k availableMemory memo plotid) = Ret None"
proof -
  from nf have nfx: "\<exists>fx. NewFx env (word_of_int k) plotid = Inr fx
      \<and> (\<forall>t l lm rm. \<exists>f. fx t l lm rm = Inr f)"
    and f1: "\<exists>f1. NewF1 env k plotid = Inr f1"
    and w: "\<forall>tr p. snd (file_Write env tr p) = None"
    and w1: "\<forall>tr off x f1x k. snd (serialize_Write1 env tr off x f1x k) = None"
    and wt: "\<forall>tr off f c k. snd (serialize_WriteT env tr off f c k) = None"
    and co: "\<forall>t k lm rm. \<exists>c. Collate env t k lm rm = Inr c"
    and rd: "\<forall>tr. list_all readable (table_reads env tr)"
    and cr: "\<forall>tr name. fs_Create env tr name = None"
    and so: "\<forall>tr sp b e m l mx k. sort_OnDisk env tr sp b e m l mx k = None"
    by (simp_all add: never_fails_def)
  from nfx obtain fx where fx: "NewFx env (word_of_int k) plotid = Inr fx"
    "\<forall>t l lm rm. \<exists>f. fx t l lm rm = Inr f"
    by (elim exE conjE)
  note hd = WriteHeader_ok [OF w]
  note ft = WriteFirstTable_ok [OF w1 w f1]
  note tb = WriteTable_ok [OF wt fx(2) co rd]
  show ?thesis
    by (simp add: WritePlotFile_def Let_def case_prod_beta call_fs_Create_def call_sort_OnDisk_def
        table_loop_one_iteration hd ft tb fx(1) cr so go_div_pow2 [OF k])
qed

lemma WritePlotFile_sort_args:
  "\<forall>(b, e, l, mx) \<in> set (sort_args (fst (WritePlotFile env filename k availableMemory memo plotid))).
     mx = pow2 k \<and> go_div (e - b) mx = Some l"
  by (simp add: WritePlotFile_def Let_def case_prod_beta call_fs_Create_def call_sort_OnDisk_def
      table_loop_one_iteration sort_args_append split: option.splits sum.splits)


lemma uneven_env_never_fails: "never_fails uneven_env"
  by (simp add: never_fails_def uneven_env_def two_bucket_env_def ideal_env_def sample_fx_def)

text \<open>
  C7, as the code has it. \<open>WritePlotFile\<close> computes a per-entry length as the integer
  quotient \<open>bytesWritten / 2^k\<close> and checks nothing: every call of \<open>sort.OnDisk\<close>
  receives the entry count \<open>2^k\<close> and, as entry length, the truncated quotient of the
  region's size by it; for non-negative operands that is the floor; and when no
  collaborator fails and \<open>0 \<le> k \<le> 62\<close> (where \<open>2^k\<close> is an \<open>int\<close>) the run returns
  nil, whether or not the byte counts are multiples of \<open>2^k\<close>.
\<close>

theorem WritePlotFile_floors_entry_length:
  "(\<forall>(b, e, l, mx) \<in> set (sort_args (fst (WritePlotFile env filename k availableMemory memo plotid))).
       mx = pow2 k \<and> go_div (e - b) mx = Some l)
   \<and> (\<forall>w. 0 \<le> k \<and> 0 \<le> w \<longrightarrow> go_div w (pow2 k) = Some (w div 2 ^ nat k))
   \<and> (never_fails env \<and> 0 \<le> k \<and> k \<le> 62 \<longrightarrow>
        snd (WritePlotFile env filename k availableMemory memo plotid) = Ret None)"
  using WritePlotFile_sort_args [of env filename k availableMemory memo plotid]
    WritePlotFile_ok [of env k filename availableMemory memo plotid] go_div_floor [of k]
  by blast

theorem WritePlotFile_floors_entry_length_witness:
  "never_fails uneven_env \<and> (0::int) \<le> 1 \<and> (1::int) \<le> 62
   \<and> sort_args (fst (WritePlotFile uneven_env ''plot'' 1 100 [] [])) = [(22, 25, 1, 2)]
   \<and> pow2 1 = 2 \<and> go_div (25 - 22) 2 = Some 1
   \<and> snd (WritePlotFile uneven_env ''plot'' 1 100 [] []) = Ret None"
  using WritePlotFile_floors_entry_length [of uneven_env "''plot''" 1 100 "[]" "[]"]
    uneven_env_never_fails
  by (simp add: uneven_run pow2_def)

text \<open>
  The claim C7 as stated fails: with \<open>k = 1\<close> and table-1 entries of 2 and 1 bytes,
  3 bytes are written, not a multiple of 2; the sort is called with entry length 1 and
  the run returns nil.
\<close>

theorem WritePlotFile_uneven_bytes_no_error:
  "pow2 1 = 2 \<and> \<not> (2::int) dvd 3
   \<and> WriteFirstTable uneven_env [] 1 22 [] =
       ([EvSerWrite1 22 0 7 1 2, EvSerWrite1 24 1 8 1 1, EvFileWrite [255] 1], 3, None)
   \<and> WritePlotFile uneven_env ''plot'' 1 100 [] [] =
     ([EvCreate ''plot'', EvFileWrite magic 19, EvFileWrite [] 0, EvFileWrite [1] 1,
       EvFileWrite [0, 0] 2, EvFileWrite [] 0,
       EvSerWrite1 22 0 7 1 2, EvSerWrite1 24 1 8 1 1, EvFileWrite [255] 1,
       EvSort False 22 25 100 1 2 1,
       EvWriteTable 2 22 25 1, EvSerRead 22 1 1, EvSerRead 24 1 1, EvSerRead 26 1 1],
      Ret None)"
  using uneven_first_table_run [of "[]"]
  by (simp add: uneven_run pow2_def)


end
